theory Spec2Isabelle
  imports Complex_Main "HOL-Library.Log_Nat"
begin

section \<open>Data model of the till (till.py)\<close>

text \<open>
  Prices and discounts are Python numbers in the source, floats (IEEE-754 doubles) or
  ints. A field holds the number's value, a rational; the arithmetic of the source
  on these values rounds to a double after every operation (section Python floats).
  Quantities and stock levels are integers.
\<close>

text \<open>One row of the inventory table. An empty cell of a text column is \<open>None\<close>.\<close>

record product =
  barcode :: string
  name :: string
  category :: "string option"
  brand :: "string option"
  supplier :: string
  price :: rat
  cost_price :: rat
  pack_size :: "string option"
  stock_qty :: int
  reorder_level :: "int option"
  is_active :: bool

text \<open>The inventory spreadsheet: whether it has a \<open>reorder_level\<close> column, and its rows.\<close>

record inventory_table =
  has_reorder_level :: bool
  table_rows :: "product list"

text \<open>A cart line, the dict built at the end of \<open>add_to_cart\<close>.\<close>

record cart_line =
  l_id :: string
  l_barcode :: string
  l_name :: string
  l_qty :: int
  l_unit_price :: rat
  l_category :: "string option"
  l_pack_size :: string

record timestamp =
  year :: nat
  month :: nat
  day :: nat
  hour :: nat
  minute :: nat
  second :: nat

text \<open>One row of the sales log, in the column order of the header written at start-up.\<close>

record sale_row =
  sale_id :: string
  sale_ts :: timestamp
  membership_id :: string
  r_barcode :: string
  product_name :: string
  r_category :: "string option"
  r_qty :: int
  r_unit_price :: rat
  line_total :: rat
  r_discount :: rat

text \<open>
  The state the till's functions read and write: the session state (cart, member id,
  discount), the module globals \<open>inventory_df\<close> and \<open>PRODUCTS\<close>, and the two files.
\<close>

record till =
  cart :: "cart_line list"
  member_id :: string
  discount :: rat
  discount_type :: string
  inventory_df :: "product list"
  PRODUCTS :: "string \<rightharpoonup> product"
  sales_file :: "sale_row list"
  inventory_file :: inventory_table

datatype py_error = ValueError | KeyError

text \<open>What the till shows to the user: each \<open>st.warning\<close>, \<open>st.error\<close> and \<open>st.success\<close>
  of the source, and an exception that no handler catches (it ends the callback where
  it is raised).\<close>

datatype message =
    BarcodeNotFound string
  | NotEnoughStock string int
  | CannotAddMore int string int
  | QuantityMustBePositive
  | NotFoundAtCheckout string
  | InsufficientAtCheckout string
  | FailedToSaveInventory
  | SaleSaved string
  | Uncaught py_error

text \<open>The two warnings of \<open>add_to_cart\<close> and the error of \<open>checkout\<close> that report a
  quantity above the stock.\<close>

fun insufficient_stock :: "message \<Rightarrow> bool" where
  "insufficient_stock (NotEnoughStock n k) = True"
| "insufficient_stock (CannotAddMore q n k) = True"
| "insufficient_stock (InsufficientAtCheckout n) = True"
| "insufficient_stock m = False"

fun checkout_rejected :: "message \<Rightarrow> bool" where
  "checkout_rejected (NotFoundAtCheckout n) = True"
| "checkout_rejected (InsufficientAtCheckout n) = True"
| "checkout_rejected m = False"

fun is_uncaught :: "message \<Rightarrow> bool" where
  "is_uncaught (Uncaught e) = True"
| "is_uncaught m = False"

section \<open>Loading the inventory\<close>

text \<open>
  Lines 17 to 32 of till.py: a missing \<open>reorder_level\<close> column is filled with 10, the
  frame is cut down to the active rows, and \<open>PRODUCTS\<close> is the frame indexed by barcode.
  \<open>to_dict(orient="index")\<close> raises ValueError when two rows share a barcode.
\<close>

definition products_of :: "product list \<Rightarrow> (string \<rightharpoonup> product)" where
  "products_of df = map_of (map (\<lambda>r. (barcode r, r)) df)"

definition load_inventory_df :: "inventory_table \<Rightarrow> product list" where
  "load_inventory_df t =
     filter is_active
       (if has_reorder_level t then table_rows t
        else map (\<lambda>r. r\<lparr>reorder_level := Some 10\<rparr>) (table_rows t))"

definition load :: "inventory_table \<Rightarrow> sale_row list \<Rightarrow> py_error + till" where
  "load t sales =
     (let df = load_inventory_df t in
      if distinct (map barcode df)
      then Inr \<lparr>cart = [], member_id = [], discount = 0, discount_type = ''percent'',
                inventory_df = df, PRODUCTS = products_of df,
                sales_file = sales, inventory_file = t\<rparr>
      else Inl ValueError)"

section \<open>Cart operations\<close>

text \<open>
  The loop of \<open>add_to_cart\<close> over the cart: it stops at the first line with the
  barcode, and either refuses (the line is returned for the warning) or adds the
  quantity to that line.
\<close>

datatype line_search = NoLine | Refused cart_line | Merged "cart_line list"

fun merge_into_cart :: "string \<Rightarrow> int \<Rightarrow> int \<Rightarrow> cart_line list \<Rightarrow> line_search" where
  "merge_into_cart b q current_stock [] = NoLine"
| "merge_into_cart b q current_stock (l # ls) =
     (if l_barcode l = b then
        (if l_qty l + q > current_stock then Refused l
         else Merged (l\<lparr>l_qty := l_qty l + q\<rparr> # ls))
      else (case merge_into_cart b q current_stock ls of
              NoLine \<Rightarrow> NoLine
            | Refused l' \<Rightarrow> Refused l'
            | Merged ls' \<Rightarrow> Merged (l # ls')))"

text \<open>\<open>new_id\<close> is the value \<open>uuid.uuid4()\<close> returns in this call.\<close>

definition add_to_cart :: "string \<Rightarrow> string \<Rightarrow> int \<Rightarrow> till \<Rightarrow> message list \<times> till" where
  "add_to_cart new_id b q s =
     (case PRODUCTS s b of
        None \<Rightarrow> ([BarcodeNotFound b], s)
      | Some p \<Rightarrow>
          (let current_stock = stock_qty p in
           if q > current_stock then ([NotEnoughStock (name p) current_stock], s)
           else (case merge_into_cart b q current_stock (cart s) of
                   Refused l \<Rightarrow> ([CannotAddMore q (name p) (current_stock - l_qty l)], s)
                 | Merged c \<Rightarrow> ([], s\<lparr>cart := c\<rparr>)
                 | NoLine \<Rightarrow>
                     ([], s\<lparr>cart := cart s @
                        [\<lparr>l_id = new_id, l_barcode = b, l_name = name p, l_qty = q,
                          l_unit_price = price p, l_category = category p,
                          l_pack_size = (case pack_size p of None \<Rightarrow> [] | Some z \<Rightarrow> z)\<rparr>]\<rparr>))))"

fun decrement_line :: "string \<Rightarrow> cart_line list \<Rightarrow> cart_line list" where
  "decrement_line i [] = []"
| "decrement_line i (l # ls) =
     (if l_id l = i then l\<lparr>l_qty := l_qty l - 1\<rparr> # ls else l # decrement_line i ls)"

definition remove_one_from_cart :: "string \<Rightarrow> till \<Rightarrow> till" where
  "remove_one_from_cart i s =
     (case find (\<lambda>l. l_id l = i) (cart s) of
        None \<Rightarrow> s
      | Some l \<Rightarrow>
          if l_qty l > 1 then s\<lparr>cart := decrement_line i (cart s)\<rparr>
          else s\<lparr>cart := filter (\<lambda>l'. l_id l' \<noteq> i) (cart s)\<rparr>)"

text \<open>
  \<open>handle_scan\<close>: the quantity check in front of \<open>add_to_cart\<close>, and
  \<open>str.strip\<close> on the scanned text. The quantity widget yields a number, so
  \<open>int(...)\<close> does not raise; the two input fields that \<open>handle_scan\<close> resets
  are arguments here, not state. \<open>is_space\<close> lists the ASCII characters that
  \<open>str.strip\<close> removes; white space beyond ASCII is not represented in a byte string.
\<close>

definition is_space :: "char \<Rightarrow> bool" where
  "is_space c = (c \<in> set [CHR '' '', CHR 0x09, CHR 0x0A, CHR 0x0B, CHR 0x0C, CHR 0x0D,
                           CHR 0x1C, CHR 0x1D, CHR 0x1E, CHR 0x1F])"

definition strip :: "string \<Rightarrow> string" where
  "strip t = rev (dropWhile is_space (rev (dropWhile is_space t)))"

definition handle_scan :: "string \<Rightarrow> string \<Rightarrow> int \<Rightarrow> till \<Rightarrow> message list \<times> till" where
  "handle_scan new_id barcode_input qty_input s =
     (if qty_input \<le> 0 then ([QuantityMustBePositive], s)
      else (let code = strip barcode_input in
            if code \<noteq> [] then add_to_cart new_id code qty_input s else ([], s)))"

section \<open>Python floats\<close>

text \<open>
  A Python float is a double: a rational \<open>m * 2 ^ e\<close> with \<open>\<bar>m\<bar> < 2 ^ 53\<close> and
  \<open>e \<ge> -1074\<close>. Each of \<open>+\<close>, \<open>-\<close>, \<open>*\<close>, \<open>/\<close> on floats yields the double nearest
  to the exact result, ties to the even mantissa; an int operand is first converted
  in the same way. \<open>fl\<close> is that rounding: \<open>ilog2 x\<close> is the binary exponent of
  \<open>x\<close> (the floor of its logarithm to base 2, from bit lengths), and below
  \<open>2 ^ -1022\<close> the spacing stays \<open>2 ^ -1074\<close>. Overflow to infinity (results of
  \<open>2 ^ 1024\<close> and more) is not represented.
\<close>

definition round_half_even :: "rat \<Rightarrow> int" where
  "round_half_even x =
     (let f = \<lfloor>x\<rfloor>; d = x - of_int f in
      if d < 1 / 2 then f
      else if d > 1 / 2 then f + 1
      else if even f then f else f + 1)"

definition pow2 :: "int \<Rightarrow> rat" where
  "pow2 k = (if 0 \<le> k then 2 ^ nat k else 1 / 2 ^ nat (- k))"

definition ilog2 :: "rat \<Rightarrow> int" where
  "ilog2 x = (if 1 \<le> x then bitlen \<lfloor>x\<rfloor> - 1 else - bitlen (\<lceil>1 / x\<rceil> - 1))"

definition fl :: "rat \<Rightarrow> rat" where
  "fl x = (if x = 0 then 0
           else (let e = max (ilog2 \<bar>x\<bar> - 52) (- 1074)
                 in of_int (round_half_even (x / pow2 e)) * pow2 e))"

text \<open>
  \<open>round(x, 2)\<close> on a float rounds the double's exact value to the nearest
  hundredth, ties to even, and returns the double nearest to that decimal; the csv
  writer prints that double as the decimal itself. \<open>round2\<close> is the decimal written.
\<close>

definition round2 :: "rat \<Rightarrow> rat" where
  "round2 x = of_int (round_half_even (x * 100)) / 100"

text \<open>
  \<open>line["unit_price"] * line["qty"]\<close>, and \<open>sum(...)\<close> of these over the cart, which
  adds from the left starting at 0, one rounding per addition (CPython up to 3.11;
  from 3.12 on \<open>sum\<close> compensates the rounding errors of float additions, which is
  not represented).
\<close>

definition line_amount :: "cart_line \<Rightarrow> rat" where
  "line_amount l = fl (l_unit_price l * fl (of_int (l_qty l)))"

definition cart_total :: "cart_line list \<Rightarrow> rat" where
  "cart_total c = foldl (\<lambda>acc x. fl (acc + x)) 0 (map line_amount c)"

definition calc_totals :: "till \<Rightarrow> rat \<times> rat \<times> rat" where
  "calc_totals s =
     (let subtotal = cart_total (cart s);
          discount_amount =
            (if discount_type s = ''percent'' then fl (fl (discount s / 100) * subtotal)
             else discount s)
      in (subtotal, discount_amount, fl (subtotal - discount_amount)))"

section \<open>Checkout\<close>

text \<open>The body of the loop of \<open>save_sale\<close> up to the row it writes.\<close>

definition discounted_line_total :: "string \<Rightarrow> rat \<Rightarrow> cart_line list \<Rightarrow> cart_line \<Rightarrow> rat" where
  "discounted_line_total dtype discount_applied c l =
     (let lt = line_amount l in
      if dtype = ''percent'' \<and> discount_applied > 0
      then fl (lt - fl (fl (lt * discount_applied) / 100))
      else if dtype = ''fixed'' then
        (let ct = cart_total c in
         if ct > 0 then fl (lt - fl (fl (lt / ct) * discount_applied)) else lt)
      else lt)"

definition sale_rows ::
  "string \<Rightarrow> timestamp \<Rightarrow> string \<Rightarrow> rat \<Rightarrow> cart_line list \<Rightarrow> string \<Rightarrow> sale_row list" where
  "sale_rows sid ts dtype discount_applied c member =
     map (\<lambda>l. \<lparr>sale_id = sid, sale_ts = ts, membership_id = member,
               r_barcode = l_barcode l, product_name = l_name l,
               r_category = l_category l, r_qty = l_qty l,
               r_unit_price = l_unit_price l,
               line_total = round2 (discounted_line_total dtype discount_applied c l),
               r_discount = discount_applied\<rparr>) c"

definition save_sale :: "string \<Rightarrow> timestamp \<Rightarrow> cart_line list \<Rightarrow> string \<Rightarrow> till \<Rightarrow> till" where
  "save_sale sid ts c member s =
     s\<lparr>sales_file := sales_file s @ sale_rows sid ts (discount_type s) (discount s) c member\<rparr>"

text \<open>
  \<open>inventory_df.at[idx, "stock_qty"] = new_stock\<close> for the first row with the barcode.
\<close>

fun set_stock :: "string \<Rightarrow> int \<Rightarrow> product list \<Rightarrow> product list" where
  "set_stock b n [] = []"
| "set_stock b n (r # rs) =
     (if barcode r = b then r\<lparr>stock_qty := n\<rparr> # rs else r # set_stock b n rs)"

text \<open>
  The loop of \<open>update_inventory_after_checkout\<close>. A barcode with no row is skipped;
  \<open>PRODUCTS[barcode]\<close> raises KeyError when the dict has no such key, after the frame
  has been updated.
\<close>

fun decrement_stock :: "cart_line list \<Rightarrow> till \<Rightarrow> py_error option \<times> till" where
  "decrement_stock [] s = (None, s)"
| "decrement_stock (l # ls) s =
     (case find (\<lambda>r. barcode r = l_barcode l) (inventory_df s) of
        None \<Rightarrow> decrement_stock ls s
      | Some r \<Rightarrow>
          (let new_stock = max (stock_qty r - l_qty l) 0;
               s1 = s\<lparr>inventory_df := set_stock (l_barcode l) new_stock (inventory_df s)\<rparr>
           in (case PRODUCTS s1 (l_barcode l) of
                 None \<Rightarrow> (Some KeyError, s1)
               | Some p \<Rightarrow>
                   decrement_stock ls
                     (s1\<lparr>PRODUCTS := (PRODUCTS s1)(l_barcode l \<mapsto> p\<lparr>stock_qty := new_stock\<rparr>)\<rparr>))))"

text \<open>
  \<open>write_ok\<close> says whether \<open>to_excel\<close> returns; when it raises, the handler reports
  the error and the file is taken to be as it was.
\<close>

definition update_inventory_after_checkout ::
  "bool \<Rightarrow> cart_line list \<Rightarrow> till \<Rightarrow> message list \<times> till" where
  "update_inventory_after_checkout write_ok c s =
     (case decrement_stock c s of
        (Some e, s') \<Rightarrow> ([Uncaught e], s')
      | (None, s') \<Rightarrow>
          if write_ok
          then ([], s'\<lparr>inventory_file := \<lparr>has_reorder_level = True, table_rows = inventory_df s'\<rparr>\<rparr>)
          else ([FailedToSaveInventory], s'))"

text \<open>The stock check at the head of \<open>checkout\<close>: the first offending line, if any.\<close>

fun check_stock :: "(string \<rightharpoonup> product) \<Rightarrow> cart_line list \<Rightarrow> message option" where
  "check_stock P [] = None"
| "check_stock P (l # ls) =
     (case P (l_barcode l) of
        None \<Rightarrow> Some (NotFoundAtCheckout (l_name l))
      | Some p \<Rightarrow>
          if l_qty l > stock_qty p then Some (InsufficientAtCheckout (l_name l))
          else check_stock P ls)"

text \<open>\<open>sid\<close> and \<open>ts\<close> are the sale identifier and the time that \<open>save_sale\<close> draws.\<close>

definition checkout :: "string \<Rightarrow> timestamp \<Rightarrow> bool \<Rightarrow> till \<Rightarrow> message list \<times> till" where
  "checkout sid ts write_ok s =
     (let cart_copy = cart s; member = member_id s in
      case check_stock (PRODUCTS s) cart_copy of
        Some m \<Rightarrow> ([m], s)
      | None \<Rightarrow>
          (case update_inventory_after_checkout write_ok cart_copy
                  (save_sale sid ts cart_copy member s) of
             (msgs, s') \<Rightarrow>
               if list_ex is_uncaught msgs then (msgs, s')
               else (msgs @ [SaleSaved member],
                     s'\<lparr>cart := [], member_id := [], discount := 0\<rparr>)))"

section \<open>Sessions\<close>

text \<open>
  What a user can do to the till: scan a barcode with a quantity, pick a product in
  the search box (which calls \<open>add_to_cart\<close> with the default quantity 1), press a
  line's remove button, type a member id, set the discount, press checkout.
\<close>

datatype event =
    Scan string string int
  | SelectProduct string string
  | RemoveOne string
  | SetMember string
  | SetDiscount string rat
  | Checkout string timestamp bool

fun step :: "event \<Rightarrow> till \<Rightarrow> message list \<times> till" where
  "step (Scan new_id code q) s = handle_scan new_id code q s"
| "step (SelectProduct new_id b) s = add_to_cart new_id b 1 s"
| "step (RemoveOne i) s = ([], remove_one_from_cart i s)"
| "step (SetMember m) s = ([], s\<lparr>member_id := m\<rparr>)"
| "step (SetDiscount t v) s = ([], s\<lparr>discount := v, discount_type := t\<rparr>)"
| "step (Checkout sid ts write_ok) s = checkout sid ts write_ok s"

fun run :: "event list \<Rightarrow> till \<Rightarrow> till" where
  "run [] s = s"
| "run (e # es) s = run es (snd (step e s))"

section \<open>The dashboard's reorder analysis\<close>

text \<open>
  The dashboard script reads the same two files. A timestamp's calendar date and its
  month period (\<open>dt.date\<close>, \<open>dt.to_period('M')\<close>):
\<close>

type_synonym date = "nat \<times> nat \<times> nat"

definition date_of :: "timestamp \<Rightarrow> date" where
  "date_of t = (year t, month t, day t)"

fun date_le :: "date \<Rightarrow> date \<Rightarrow> bool" where
  "date_le (y1, m1, d1) (y2, m2, d2) =
     (y1 < y2 \<or> (y1 = y2 \<and> (m1 < m2 \<or> (m1 = m2 \<and> d1 \<le> d2))))"

definition month_of :: "timestamp \<Rightarrow> nat \<times> nat" where
  "month_of t = (year t, month t)"

text \<open>
  \<open>sales_merged\<close>: the left join of the sales log with the inventory on the barcode.
  A sale with no inventory row keeps one row with empty inventory columns; a sale
  whose barcode is on several inventory rows appears once for each.
\<close>

record merged_row =
  m_sale :: sale_row
  m_inv :: "product option"

definition sales_merged :: "sale_row list \<Rightarrow> product list \<Rightarrow> merged_row list" where
  "sales_merged sales_df inventory =
     concat (map (\<lambda>r. case filter (\<lambda>p. barcode p = r_barcode r) inventory of
                         [] \<Rightarrow> [\<lparr>m_sale = r, m_inv = None\<rparr>]
                       | ps \<Rightarrow> map (\<lambda>p. \<lparr>m_sale = r, m_inv = Some p\<rparr>) ps) sales_df)"

text \<open>The values of the three sidebar widgets.\<close>

record filters =
  date_range :: "date \<times> date"
  selected_categories :: "string list"
  selected_brands :: "string list"

text \<open>\<open>Series.isin\<close> on a text column: an empty cell is in no selection.\<close>

definition isin :: "string option \<Rightarrow> string list \<Rightarrow> bool" where
  "isin v xs = (case v of None \<Rightarrow> False | Some x \<Rightarrow> x \<in> set xs)"

text \<open>The row mask of \<open>sales_filtered\<close>: the category is the sale's, the brand the
  inventory's.\<close>

definition passes :: "filters \<Rightarrow> merged_row \<Rightarrow> bool" where
  "passes f r \<longleftrightarrow>
     date_le (fst (date_range f)) (date_of (sale_ts (m_sale r))) \<and>
     date_le (date_of (sale_ts (m_sale r))) (snd (date_range f)) \<and>
     isin (r_category (m_sale r)) (selected_categories f) \<and>
     isin (case m_inv r of None \<Rightarrow> None | Some p \<Rightarrow> brand p) (selected_brands f)"

definition sales_filtered :: "filters \<Rightarrow> merged_row list \<Rightarrow> merged_row list" where
  "sales_filtered f merged = filter (passes f) merged"

text \<open>
  \<open>groupby\<close>: the values of each key, keys in order of first appearance. (pandas
  sorts the keys; every later step looks groups up by key, so the order is not
  observed.)
\<close>

fun insert_group :: "'k \<Rightarrow> 'v \<Rightarrow> ('k \<times> 'v list) list \<Rightarrow> ('k \<times> 'v list) list" where
  "insert_group k v [] = [(k, [v])]"
| "insert_group k v ((k', vs) # gs) =
     (if k' = k then (k', vs @ [v]) # gs else (k', vs) # insert_group k v gs)"

definition groupby :: "('k \<times> 'v) list \<Rightarrow> ('k \<times> 'v list) list" where
  "groupby kvs = foldl (\<lambda>gs (k, v). insert_group k v gs) [] kvs"

text \<open>
  Line 98, in two steps: \<open>groupby(['barcode', 'month'])['qty'].sum()\<close>, then
  \<open>.groupby('barcode').mean()\<close>. The argument is the frame the script groups, which
  is \<open>sales_filtered\<close>.
\<close>

definition monthly_qty :: "merged_row list \<Rightarrow> ((string \<times> nat \<times> nat) \<times> int) list" where
  "monthly_qty frame =
     map (\<lambda>(k, vs). (k, sum_list vs))
       (groupby (map (\<lambda>r. ((r_barcode (m_sale r), month_of (sale_ts (m_sale r))), r_qty (m_sale r))) frame))"

definition monthly_sales_per_product :: "merged_row list \<Rightarrow> (string \<times> rat) list" where
  "monthly_sales_per_product frame =
     map (\<lambda>(b, totals). (b, of_int (sum_list totals) / of_nat (length totals)))
       (groupby (map (\<lambda>((b, m), total). (b, total)) (monthly_qty frame)))"

definition reorder_levels :: "merged_row list \<Rightarrow> (string \<times> int) list" where
  "reorder_levels frame = map (\<lambda>(b, x). (b, max \<lceil>x * 2\<rceil> 5)) (monthly_sales_per_product frame)"

text \<open>Lines 103 to 106: the left join with the dynamic levels and the two \<open>fillna\<close>.\<close>

definition inventory_with_reorder :: "merged_row list \<Rightarrow> product list \<Rightarrow> product list" where
  "inventory_with_reorder frame inventory =
     map (\<lambda>p. p\<lparr>reorder_level :=
                 Some (case reorder_level p of
                         Some v \<Rightarrow> v
                       | None \<Rightarrow> (case map_of (reorder_levels frame) (barcode p) of
                                    Some d \<Rightarrow> d
                                  | None \<Rightarrow> 5))\<rparr>) inventory"

definition low_stock_df :: "merged_row list \<Rightarrow> product list \<Rightarrow> product list" where
  "low_stock_df frame inventory =
     filter (\<lambda>p. case reorder_level p of None \<Rightarrow> False | Some v \<Rightarrow> stock_qty p \<le> v)
       (inventory_with_reorder frame inventory)"

text \<open>\<open>astype(int)\<close> cuts the fraction off, towards zero.\<close>

definition astype_int :: "rat \<Rightarrow> int" where
  "astype_int x = (if 0 \<le> x then \<lfloor>x\<rfloor> else \<lceil>x\<rceil>)"

text \<open>Lines 235 to 239: \<open>reindex(...).fillna(0)\<close> and the reorder quantity.\<close>

definition avg_monthly_sales :: "merged_row list \<Rightarrow> product \<Rightarrow> rat" where
  "avg_monthly_sales frame p =
     (case map_of (monthly_sales_per_product frame) (barcode p) of None \<Rightarrow> 0 | Some x \<Rightarrow> x)"

definition reorder_qty :: "merged_row list \<Rightarrow> product \<Rightarrow> int" where
  "reorder_qty frame p = astype_int (max (2 * avg_monthly_sales frame p - of_int (stock_qty p)) 0)"

text \<open>
  What the inventory tab shows: the inventory with its effective reorder levels, and
  the low-stock rows with their average monthly sales and reorder quantity.
\<close>

record reorder_report =
  with_reorder :: "product list"
  low_stock :: "(product \<times> rat \<times> int) list"

definition reorder_analysis :: "merged_row list \<Rightarrow> product list \<Rightarrow> reorder_report" where
  "reorder_analysis frame inventory =
     \<lparr>with_reorder = inventory_with_reorder frame inventory,
      low_stock = map (\<lambda>p. (p, avg_monthly_sales frame p, reorder_qty frame p))
                    (low_stock_df frame inventory)\<rparr>"

text \<open>The script from the two loaded tables and the widget values to the report.\<close>

definition dashboard :: "filters \<Rightarrow> sale_row list \<Rightarrow> product list \<Rightarrow> reorder_report" where
  "dashboard f sales_df inventory =
     reorder_analysis (sales_filtered f (sales_merged sales_df inventory)) inventory"

subsection \<open>The analysis as the specification words it\<close>

text \<open>
  These four definitions follow the specification's sentences, not the script: the
  months a product appears in, its summed quantity in a month, the mean of these
  sums, and the effective reorder level (the explicit level, else the dynamic one,
  else 5). They are compared with the script's pipeline below.
\<close>

definition months_sold :: "merged_row list \<Rightarrow> string \<Rightarrow> (nat \<times> nat) set" where
  "months_sold frame b =
     (\<lambda>r. month_of (sale_ts (m_sale r))) ` set (filter (\<lambda>r. r_barcode (m_sale r) = b) frame)"

definition qty_in_month :: "merged_row list \<Rightarrow> string \<Rightarrow> nat \<times> nat \<Rightarrow> int" where
  "qty_in_month frame b m =
     (\<Sum>r\<leftarrow>filter (\<lambda>r. r_barcode (m_sale r) = b \<and> month_of (sale_ts (m_sale r)) = m) frame.
        r_qty (m_sale r))"

definition mean_monthly_qty :: "merged_row list \<Rightarrow> string \<Rightarrow> rat option" where
  "mean_monthly_qty frame b =
     (if months_sold frame b = {} then None
      else Some (of_int (\<Sum>m\<in>months_sold frame b. qty_in_month frame b m)
                 / of_nat (card (months_sold frame b))))"

definition effective_reorder_level :: "merged_row list \<Rightarrow> product \<Rightarrow> int" where
  "effective_reorder_level frame p =
     (case reorder_level p of
        Some v \<Rightarrow> v
      | None \<Rightarrow> (case mean_monthly_qty frame (barcode p) of
                   Some x \<Rightarrow> max \<lceil>x * 2\<rceil> 5
                 | None \<Rightarrow> 5))"

section \<open>Notions used in the statements\<close>

text \<open>The amount of a line and the subtotal of a cart as the specification words them:
  \<open>unit_price * quantity\<close> and its sum over the lines, in exact arithmetic.\<close>

definition amount :: "cart_line \<Rightarrow> rat" where
  "amount l = l_unit_price l * of_int (l_qty l)"

definition subtotal :: "cart_line list \<Rightarrow> rat" where
  "subtotal c = (\<Sum>l\<leftarrow>c. amount l)"

text \<open>
  The size of a rounding: \<open>fl\<close> moves a number by at most the fraction \<open>ulp_half\<close> of
  its magnitude, or by \<open>tiny\<close> below the normal range. \<open>close a x y\<close>: \<open>y\<close> is \<open>x\<close> up to
  the relative error \<open>a\<close>.
\<close>

definition ulp_half :: rat where "ulp_half = 1 / 2 ^ 53"

definition tiny :: rat where "tiny = 1 / 2 ^ 1075"

definition close :: "rat \<Rightarrow> rat \<Rightarrow> rat \<Rightarrow> bool" where
  "close a x y \<longleftrightarrow> \<bar>y - x\<bar> \<le> a * \<bar>x\<bar>"

text \<open>
  The range of carts and discounts the statements on line totals are made for: at
  most 1000 lines, unit prices from 0.000001 to 1000000, quantities from 1 to 1000,
  and a discount that is 0 or lies between 0.000001 and 1000000000. In this range no
  operation of \<open>save_sale\<close> overflows or leaves the normal range of doubles.
  \<open>nonneg_cart\<close> admits a unit price of 0.
\<close>

definition ordinary_line :: "cart_line \<Rightarrow> bool" where
  "ordinary_line l \<longleftrightarrow>
     1 / 10 ^ 6 \<le> l_unit_price l \<and> l_unit_price l \<le> 10 ^ 6 \<and> 1 \<le> l_qty l \<and> l_qty l \<le> 1000"




text \<open>The stock of the first row with a barcode, as \<open>inventory_df.at[idx, "stock_qty"]\<close> reads it.\<close>

definition stock_in :: "product list \<Rightarrow> string \<Rightarrow> int option" where
  "stock_in df b = map_option stock_qty (find (\<lambda>r. barcode r = b) df)"

text \<open>No stock quantity is negative: in the frame, in \<open>PRODUCTS\<close> and in the file.\<close>

definition stock_nonneg :: "till \<Rightarrow> bool" where
  "stock_nonneg s \<longleftrightarrow>
     (\<forall>r\<in>set (inventory_df s). 0 \<le> stock_qty r) \<and>
     (\<forall>p\<in>ran (PRODUCTS s). 0 \<le> stock_qty p) \<and>
     (\<forall>r\<in>set (table_rows (inventory_file s)). 0 \<le> stock_qty r)"

text \<open>One turn of the loop of \<open>update_inventory_after_checkout\<close> for a line whose
  barcode has the row \<open>r\<close> in the frame and the entry \<open>p\<close> in \<open>PRODUCTS\<close>.\<close>

definition sell_line :: "cart_line \<Rightarrow> product \<Rightarrow> product \<Rightarrow> till \<Rightarrow> till" where
  "sell_line l r p s =
     s\<lparr>inventory_df := set_stock (l_barcode l) (max (stock_qty r - l_qty l) 0) (inventory_df s),
       PRODUCTS := (PRODUCTS s)(l_barcode l \<mapsto> p\<lparr>stock_qty := max (stock_qty r - l_qty l) 0\<rparr>)\<rparr>"

text \<open>The state after \<open>save_sale\<close> and the stock loop, before the file is written.\<close>

definition sold :: "string \<Rightarrow> timestamp \<Rightarrow> till \<Rightarrow> till" where
  "sold sid ts s = snd (decrement_stock (cart s) (save_sale sid ts (cart s) (member_id s) s))"

text \<open>The cart invariant: every quantity is at least 1 and no barcode is on two lines.\<close>

definition cart_ok :: "cart_line list \<Rightarrow> bool" where
  "cart_ok c \<longleftrightarrow> (\<forall>l\<in>set c. 1 \<le> l_qty l) \<and> distinct (map l_barcode c)"

section \<open>A small shop, for concrete runs\<close>

definition bread :: product where
  "bread = \<lparr>barcode = ''1001'', name = ''Bread'', category = Some ''Bakery'', brand = Some ''Sasko'',
     supplier = ''Acme'', price = 20, cost_price = 12, pack_size = Some ''700g'',
     stock_qty = 5, reorder_level = Some 4, is_active = True\<rparr>"

definition milk :: product where
  "milk = \<lparr>barcode = ''1002'', name = ''Milk'', category = Some ''Dairy'', brand = Some ''Clover'',
     supplier = ''Acme'', price = 25, cost_price = 10, pack_size = None,
     stock_qty = 10, reorder_level = None, is_active = True\<rparr>"

definition candles :: product where
  "candles = \<lparr>barcode = ''1003'', name = ''Candles'', category = Some ''Home'', brand = None,
     supplier = ''Acme'', price = 30, cost_price = 18, pack_size = None,
     stock_qty = 3, reorder_level = Some 2, is_active = False\<rparr>"

definition shop_file :: inventory_table where
  "shop_file = \<lparr>has_reorder_level = True, table_rows = [bread, candles, milk]\<rparr>"

definition shop :: till where
  "shop = \<lparr>cart = [], member_id = [], discount = 0, discount_type = ''percent'',
     inventory_df = [bread, milk], PRODUCTS = [''1001'' \<mapsto> bread, ''1002'' \<mapsto> milk],
     sales_file = [], inventory_file = shop_file\<rparr>"

definition noon :: timestamp where
  "noon = \<lparr>year = 2024, month = 3, day = 5, hour = 12, minute = 0, second = 0\<rparr>"

definition bread_line :: "int \<Rightarrow> cart_line" where
  "bread_line q = \<lparr>l_id = ''u1'', l_barcode = ''1001'', l_name = ''Bread'', l_qty = q,
     l_unit_price = 20, l_category = Some ''Bakery'', l_pack_size = ''700g''\<rparr>"

definition milk_line :: "int \<Rightarrow> cart_line" where
  "milk_line q = \<lparr>l_id = ''u2'', l_barcode = ''1002'', l_name = ''Milk'', l_qty = q,
     l_unit_price = 25, l_category = Some ''Dairy'', l_pack_size = []\<rparr>"










text \<open>For the grouping proofs: the values filed under a key, the key and quantity a
  row is grouped by, and the (barcode, month) keys of one barcode.\<close>

definition values_of :: "'k \<Rightarrow> ('k \<times> 'v) list \<Rightarrow> 'v list" where
  "values_of k kvs = map snd (filter (\<lambda>p. fst p = k) kvs)"

definition key_qty :: "merged_row \<Rightarrow> (string \<times> nat \<times> nat) \<times> int" where
  "key_qty r = ((r_barcode (m_sale r), month_of (sale_ts (m_sale r))), r_qty (m_sale r))"

definition month_keys :: "merged_row list \<Rightarrow> string \<Rightarrow> (string \<times> nat \<times> nat) list" where
  "month_keys frame b = filter (\<lambda>k. fst k = b) (map fst (monthly_qty frame))"

text \<open>Three sales of milk, 8 units in January and 2 in February, and three settings
  of the sidebar.\<close>

definition milk_sale :: "nat \<Rightarrow> nat \<Rightarrow> nat \<Rightarrow> int \<Rightarrow> sale_row" where
  "milk_sale y m d q = \<lparr>sale_id = ''s'', sale_ts = \<lparr>year = y, month = m, day = d, hour = 9, minute = 0, second = 0\<rparr>,
     membership_id = [], r_barcode = ''1002'', product_name = ''Milk'', r_category = Some ''Dairy'',
     r_qty = q, r_unit_price = 25, line_total = 25 * of_int q, r_discount = 0\<rparr>"

definition ledger :: "sale_row list" where
  "ledger = [milk_sale 2024 1 10 5, milk_sale 2024 1 20 3, milk_sale 2024 2 18 2]"

definition all_dates :: filters where
  "all_dates = \<lparr>date_range = ((2023, 11, 20), (2024, 2, 18)),
     selected_categories = [''Dairy''], selected_brands = [''Clover'']\<rparr>"

definition february :: filters where
  "february = \<lparr>date_range = ((2024, 2, 1), (2024, 2, 18)),
     selected_categories = [''Dairy''], selected_brands = [''Clover'']\<rparr>"

definition since_december :: filters where
  "since_december = \<lparr>date_range = ((2023, 12, 1), (2024, 2, 18)),
     selected_categories = [''Dairy'', ''Bakery''], selected_brands = [''Clover'']\<rparr>"

section \<open>The stock check and the stock loop\<close>

lemma check_stock_fails:
  "\<exists>l\<in>set c. (case P (l_barcode l) of None \<Rightarrow> True | Some p \<Rightarrow> l_qty l > stock_qty p)
   \<Longrightarrow> \<exists>m. check_stock P c = Some m \<and> checkout_rejected m"
  by (induction c) (auto split: option.splits)

lemma check_stock_passes:
  "check_stock P c = None \<longleftrightarrow> (\<forall>l\<in>set c. \<exists>p. P (l_barcode l) = Some p \<and> l_qty l \<le> stock_qty p)"
  by (induction c) (auto split: option.splits)

lemma check_stock_dom:
  "check_stock P c = None \<Longrightarrow> \<forall>l\<in>set c. l_barcode l \<in> dom P"
  by (auto simp: check_stock_passes)

lemma set_stock_nonneg:
  "0 \<le> n \<Longrightarrow> \<forall>r\<in>set df. 0 \<le> stock_qty r \<Longrightarrow> \<forall>r\<in>set (set_stock b n df). 0 \<le> stock_qty r"
  by (induction df) auto

lemma ran_upd_nonneg:
  "\<forall>p\<in>ran P. 0 \<le> stock_qty p \<Longrightarrow> 0 \<le> stock_qty q \<Longrightarrow> \<forall>p\<in>ran (P(b \<mapsto> q)). 0 \<le> stock_qty p"
  by (auto simp: ran_def split: if_splits)

lemma decrement_stock_frame:
  "cart (snd (decrement_stock c s)) = cart s \<and>
   member_id (snd (decrement_stock c s)) = member_id s \<and>
   discount (snd (decrement_stock c s)) = discount s \<and>
   discount_type (snd (decrement_stock c s)) = discount_type s \<and>
   sales_file (snd (decrement_stock c s)) = sales_file s \<and>
   inventory_file (snd (decrement_stock c s)) = inventory_file s"
  by (induction c s rule: decrement_stock.induct) (auto simp: Let_def split: option.splits)

lemma decrement_stock_skip:
  "find (\<lambda>r. barcode r = l_barcode l) (inventory_df s) = None \<Longrightarrow>
   decrement_stock (l # ls) s = decrement_stock ls s"
  by simp

lemma decrement_stock_sell:
  "find (\<lambda>r. barcode r = l_barcode l) (inventory_df s) = Some r \<Longrightarrow>
   PRODUCTS s (l_barcode l) = Some p \<Longrightarrow>
   decrement_stock (l # ls) s = decrement_stock ls (sell_line l r p s)"
  by (simp add: Let_def sell_line_def)

lemma decrement_stock_nonneg:
  "stock_nonneg s \<Longrightarrow> stock_nonneg (snd (decrement_stock c s))"
proof (induction c s rule: decrement_stock.induct)
  case (1 s)
  then show ?case by simp
next
  case (2 l ls s)
  show ?case
  proof (cases "find (\<lambda>r. barcode r = l_barcode l) (inventory_df s)")
    case None
    with 2 show ?thesis by simp
  next
    case (Some r)
    define n where "n = max (stock_qty r - l_qty l) 0"
    define s1 where "s1 = s\<lparr>inventory_df := set_stock (l_barcode l) n (inventory_df s)\<rparr>"
    have n0: "0 \<le> n" by (simp add: n_def)
    have s1_ok: "stock_nonneg s1"
      using "2.prems" set_stock_nonneg[OF n0, of "inventory_df s" "l_barcode l"]
      by (simp add: stock_nonneg_def s1_def)
    show ?thesis
    proof (cases "PRODUCTS s (l_barcode l)")
      case None
      with Some s1_ok show ?thesis by (simp add: Let_def s1_def n_def)
    next
      case (Some p)
      define s2 where "s2 = s1\<lparr>PRODUCTS := (PRODUCTS s1)(l_barcode l \<mapsto> p\<lparr>stock_qty := n\<rparr>)\<rparr>"
      have "stock_nonneg s2"
        using s1_ok n0 ran_upd_nonneg[of "PRODUCTS s1" "p\<lparr>stock_qty := n\<rparr>" "l_barcode l"]
        by (simp add: stock_nonneg_def s2_def)
      moreover have "decrement_stock (l # ls) s = decrement_stock ls s2"
        using \<open>find _ _ = Some r\<close> Some by (simp add: Let_def s2_def s1_def n_def)
      moreover have "stock_nonneg s2 \<Longrightarrow> stock_nonneg (snd (decrement_stock ls s2))"
        using "2.IH"(2)[OF \<open>find _ _ = Some r\<close>, of n s1 p] Some
        by (simp add: s2_def s1_def n_def)
      ultimately show ?thesis by simp
    qed
  qed
qed

lemma decrement_stock_dom:
  "dom (PRODUCTS (snd (decrement_stock c s))) \<subseteq> dom (PRODUCTS s)"
proof (induction c arbitrary: s)
  case Nil
  then show ?case by simp
next
  case (Cons l ls)
  show ?case
  proof (cases "find (\<lambda>r. barcode r = l_barcode l) (inventory_df s)")
    case None
    then show ?thesis using Cons.IH[of s] by simp
  next
    case (Some r)
    show ?thesis
    proof (cases "PRODUCTS s (l_barcode l)")
      case None
      then show ?thesis using Some by (simp add: Let_def)
    next
      case (Some p)
      have "dom (PRODUCTS (sell_line l r p s)) \<subseteq> dom (PRODUCTS s)"
        using Some by (auto simp: sell_line_def)
      then show ?thesis
        using Cons.IH[of "sell_line l r p s"] decrement_stock_sell[OF \<open>find _ _ = Some r\<close> Some]
        by auto
    qed
  qed
qed

lemma decrement_stock_no_error:
  "\<forall>l\<in>set c. l_barcode l \<in> dom (PRODUCTS s) \<Longrightarrow> fst (decrement_stock c s) = None"
proof (induction c arbitrary: s)
  case Nil
  then show ?case by simp
next
  case (Cons l ls)
  show ?case
  proof (cases "find (\<lambda>r. barcode r = l_barcode l) (inventory_df s)")
    case None
    then show ?thesis using Cons.IH[of s] Cons.prems by simp
  next
    case (Some r)
    obtain p where p: "PRODUCTS s (l_barcode l) = Some p" using Cons.prems by auto
    have "\<forall>x\<in>set ls. l_barcode x \<in> dom (PRODUCTS (sell_line l r p s))"
      using Cons.prems by (auto simp: sell_line_def)
    then have "fst (decrement_stock ls (sell_line l r p s)) = None"
      by (rule Cons.IH)
    then show ?thesis
      by (simp only: decrement_stock_sell[OF Some p])
  qed
qed

lemma stock_in_set_stock:
  "stock_in (set_stock b n df) b' =
     (if b' = b then (case stock_in df b of None \<Rightarrow> None | Some k \<Rightarrow> Some n) else stock_in df b')"
  by (induction df) (auto simp: stock_in_def)

lemma decrement_stock_other:
  "b \<notin> l_barcode ` set c \<Longrightarrow>
     stock_in (inventory_df (snd (decrement_stock c s))) b = stock_in (inventory_df s) b \<and>
     PRODUCTS (snd (decrement_stock c s)) b = PRODUCTS s b"
proof (induction c arbitrary: s)
  case Nil
  then show ?case by simp
next
  case (Cons l ls)
  have ne: "b \<noteq> l_barcode l" and rest: "b \<notin> l_barcode ` set ls" using Cons.prems by auto
  show ?case
  proof (cases "find (\<lambda>r. barcode r = l_barcode l) (inventory_df s)")
    case None
    then show ?thesis using Cons.IH[OF rest, of s] by simp
  next
    case (Some r)
    show ?thesis
    proof (cases "PRODUCTS s (l_barcode l)")
      case None
      then show ?thesis using Some ne by (simp add: Let_def stock_in_set_stock)
    next
      case (Some p)
      have "stock_in (inventory_df (sell_line l r p s)) b = stock_in (inventory_df s) b"
           "PRODUCTS (sell_line l r p s) b = PRODUCTS s b"
        using ne by (simp_all add: sell_line_def stock_in_set_stock)
      then show ?thesis
        using Cons.IH[OF rest, of "sell_line l r p s"]
              decrement_stock_sell[OF \<open>find _ _ = Some r\<close> Some]
        by simp
    qed
  qed
qed

lemma decrement_stock_line:
  assumes "distinct (map l_barcode c)" and "l \<in> set c"
    and "stock_in (inventory_df s) (l_barcode l) = Some k"
    and "\<forall>l\<in>set c. l_barcode l \<in> dom (PRODUCTS s)"
  shows "stock_in (inventory_df (snd (decrement_stock c s))) (l_barcode l) = Some (max (k - l_qty l) 0) \<and>
     map_option stock_qty (PRODUCTS (snd (decrement_stock c s)) (l_barcode l)) = Some (max (k - l_qty l) 0)"
  using assms
proof (induction c arbitrary: s)
  case Nil
  then show ?case by simp
next
  case (Cons x ls)
  show ?case
  proof (cases "find (\<lambda>r. barcode r = l_barcode x) (inventory_df s)")
    case None
    have "l \<noteq> x" using None Cons.prems(3) by (auto simp: stock_in_def)
    then have "l \<in> set ls" using Cons.prems(2) by simp
    then show ?thesis using Cons.IH[of s] Cons.prems None by simp
  next
    case (Some r)
    obtain p where p: "PRODUCTS s (l_barcode x) = Some p" using Cons.prems(4) by auto
    define n where "n = max (stock_qty r - l_qty x) 0"
    define s2 where "s2 = sell_line x r p s"
    have step: "decrement_stock (x # ls) s = decrement_stock ls s2"
      using decrement_stock_sell[OF Some p] by (simp add: s2_def)
    have sr: "stock_in (inventory_df s) (l_barcode x) = Some (stock_qty r)"
      using Some by (simp add: stock_in_def)
    show ?thesis
    proof (cases "l = x")
      case True
      have notin: "l_barcode x \<notin> l_barcode ` set ls" using Cons.prems(1) by auto
      have k: "k = stock_qty r" using Cons.prems(3) sr True by simp
      have "stock_in (inventory_df s2) (l_barcode x) = Some n"
        using sr by (simp add: s2_def sell_line_def stock_in_set_stock n_def)
      moreover have "PRODUCTS s2 (l_barcode x) = Some (p\<lparr>stock_qty := n\<rparr>)"
        by (simp add: s2_def sell_line_def n_def)
      ultimately show ?thesis
        using decrement_stock_other[OF notin, of s2] step True k by (simp add: n_def)
    next
      case False
      then have lin: "l \<in> set ls" using Cons.prems(2) by simp
      then have "l_barcode l \<in> l_barcode ` set ls" by (rule imageI)
      then have ne: "l_barcode l \<noteq> l_barcode x" using Cons.prems(1) by auto
      have a: "stock_in (inventory_df s2) (l_barcode l) = Some k"
        using Cons.prems(3) ne by (simp add: s2_def sell_line_def stock_in_set_stock)
      have b: "\<forall>l\<in>set ls. l_barcode l \<in> dom (PRODUCTS s2)"
        using Cons.prems(4) by (auto simp: s2_def sell_line_def)
      have d: "distinct (map l_barcode ls)" using Cons.prems(1) by simp
      show ?thesis using Cons.IH[OF d lin a b] step by simp
    qed
  qed
qed

lemma decrement_stock_sales_file:
  "inventory_df (snd (decrement_stock c (s\<lparr>sales_file := x\<rparr>))) = inventory_df (snd (decrement_stock c s)) \<and>
   PRODUCTS (snd (decrement_stock c (s\<lparr>sales_file := x\<rparr>))) = PRODUCTS (snd (decrement_stock c s))"
proof (induction c arbitrary: s)
  case Nil
  then show ?case by simp
next
  case (Cons l ls)
  show ?case
  proof (cases "find (\<lambda>r. barcode r = l_barcode l) (inventory_df s)")
    case None
    then show ?thesis using Cons.IH[of s] by simp
  next
    case (Some r)
    show ?thesis
    proof (cases "PRODUCTS s (l_barcode l)")
      case None
      then show ?thesis using Some by (simp add: Let_def)
    next
      case (Some p)
      have e0: "sell_line l r p (s\<lparr>sales_file := x\<rparr>) = (sell_line l r p s)\<lparr>sales_file := x\<rparr>"
        by (simp add: sell_line_def)
      have e1: "decrement_stock (l # ls) (s\<lparr>sales_file := x\<rparr>)
              = decrement_stock ls ((sell_line l r p s)\<lparr>sales_file := x\<rparr>)"
        using decrement_stock_sell[of l "s\<lparr>sales_file := x\<rparr>" r p ls] \<open>find _ _ = Some r\<close> Some
        by (simp only: e0) simp
      have e2: "decrement_stock (l # ls) s = decrement_stock ls (sell_line l r p s)"
        using \<open>find _ _ = Some r\<close> Some by (rule decrement_stock_sell)
      show ?thesis
        unfolding e1 e2 by (rule Cons.IH)
    qed
  qed
qed

section \<open>What a checkout does\<close>

lemma save_sale_fields:
  "cart (save_sale sid ts c m s) = cart s"
  "inventory_df (save_sale sid ts c m s) = inventory_df s"
  "PRODUCTS (save_sale sid ts c m s) = PRODUCTS s"
  "inventory_file (save_sale sid ts c m s) = inventory_file s"
  "member_id (save_sale sid ts c m s) = member_id s"
  "discount (save_sale sid ts c m s) = discount s"
  "discount_type (save_sale sid ts c m s) = discount_type s"
  by (simp_all add: save_sale_def)

lemma checkout_rejects:
  "check_stock (PRODUCTS s) (cart s) = Some m \<Longrightarrow> checkout sid ts write_ok s = ([m], s)"
  by (simp add: checkout_def)

lemma checkout_accepts:
  assumes "check_stock (PRODUCTS s) (cart s) = None"
  shows "checkout sid ts write_ok s =
     ((if write_ok then [] else [FailedToSaveInventory]) @ [SaleSaved (member_id s)],
      (if write_ok
       then (sold sid ts s)\<lparr>inventory_file :=
              \<lparr>has_reorder_level = True, table_rows = inventory_df (sold sid ts s)\<rparr>\<rparr>
       else sold sid ts s)\<lparr>cart := [], member_id := [], discount := 0\<rparr>)"
proof -
  let ?s1 = "save_sale sid ts (cart s) (member_id s) s"
  have "\<forall>l\<in>set (cart s). l_barcode l \<in> dom (PRODUCTS ?s1)"
    using check_stock_dom[OF assms] by (simp add: save_sale_fields)
  then have "fst (decrement_stock (cart s) ?s1) = None"
    by (rule decrement_stock_no_error)
  then have "decrement_stock (cart s) ?s1 = (None, sold sid ts s)"
    by (simp add: sold_def prod_eq_iff)
  then show ?thesis
    using assms by (simp add: checkout_def update_inventory_after_checkout_def)
qed

lemma sold_fields:
  "cart (sold sid ts s) = cart s"
  "member_id (sold sid ts s) = member_id s"
  "discount (sold sid ts s) = discount s"
  "discount_type (sold sid ts s) = discount_type s"
  "inventory_file (sold sid ts s) = inventory_file s"
  "sales_file (sold sid ts s) =
     sales_file s @ sale_rows sid ts (discount_type s) (discount s) (cart s) (member_id s)"
  using decrement_stock_frame[of "cart s" "save_sale sid ts (cart s) (member_id s) s"]
  by (simp_all add: sold_def save_sale_def)

lemma sold_inventory:
  "inventory_df (sold sid ts s) = inventory_df (snd (decrement_stock (cart s) s))"
  "PRODUCTS (sold sid ts s) = PRODUCTS (snd (decrement_stock (cart s) s))"
  by (simp_all add: sold_def save_sale_def decrement_stock_sales_file)

lemma sold_nonneg: "stock_nonneg s \<Longrightarrow> stock_nonneg (sold sid ts s)"
  unfolding sold_def
  by (rule decrement_stock_nonneg) (simp add: stock_nonneg_def save_sale_def)

lemma checkout_ledger:
  assumes "check_stock (PRODUCTS s) (cart s) = None"
  shows "sales_file (snd (checkout sid ts w s)) =
         sales_file s @ sale_rows sid ts (discount_type s) (discount s) (cart s) (member_id s)"
  by (simp add: checkout_accepts[OF assms] sold_fields)

lemma checkout_line_stock:
  assumes "check_stock (PRODUCTS s) (cart s) = None" and "distinct (map l_barcode (cart s))"
    and "l \<in> set (cart s)" and "stock_in (inventory_df s) (l_barcode l) = Some k"
  shows "stock_in (inventory_df (snd (checkout sid ts w s))) (l_barcode l) = Some (max (k - l_qty l) 0)"
    and "map_option stock_qty (PRODUCTS (snd (checkout sid ts w s)) (l_barcode l)) = Some (max (k - l_qty l) 0)"
  using decrement_stock_line[OF assms(2,3,4) check_stock_dom[OF assms(1)]]
  by (simp_all add: checkout_accepts[OF assms(1)] sold_inventory)

section \<open>The shop at work\<close>

lemmas shop_simps = shop_def shop_file_def bread_def milk_def candles_def bread_line_def milk_line_def noon_def

lemma load_shop: "load shop_file [] = Inr shop"
  by (simp add: load_def load_inventory_df_def shop_file_def shop_def products_of_def
      bread_def milk_def candles_def fun_eq_iff)

lemma scan_bread: "handle_scan ''u1'' '' 1001 '' 2 shop = ([], shop\<lparr>cart := [bread_line 2]\<rparr>)"
  by (simp add: handle_scan_def strip_def is_space_def add_to_cart_def Let_def shop_simps)

lemma shop_nonneg: "stock_nonneg shop"
  by (auto simp: stock_nonneg_def shop_simps ran_def split: if_splits)

lemma shop_day_run:
  "run [Scan ''u1'' ''1001'' 2, Scan ''u2'' ''1002'' 3, Checkout ''s1'' noon True] shop =
     shop\<lparr>inventory_df := [bread\<lparr>stock_qty := 3\<rparr>, milk\<lparr>stock_qty := 7\<rparr>],
          PRODUCTS := [''1001'' \<mapsto> bread\<lparr>stock_qty := 3\<rparr>, ''1002'' \<mapsto> milk\<lparr>stock_qty := 7\<rparr>],
          sales_file := sale_rows ''s1'' noon ''percent'' 0 [bread_line 2, milk_line 3] [],
          inventory_file := \<lparr>has_reorder_level = True,
             table_rows = [bread\<lparr>stock_qty := 3\<rparr>, milk\<lparr>stock_qty := 7\<rparr>]\<rparr>\<rparr>"
  by (simp add: handle_scan_def strip_def is_space_def add_to_cart_def Let_def shop_simps
      checkout_def update_inventory_after_checkout_def save_sale_def fun_eq_iff)

section \<open>Checkout refuses a cart it cannot serve\<close>

text \<open>
  Claim C1. If some cart line asks for more than the stock \<open>PRODUCTS\<close> holds for its
  barcode, or its barcode is not in \<open>PRODUCTS\<close>, \<open>checkout\<close> reports one error and
  returns the state it was given: no row is added to the sales log, no stock quantity
  changes in the frame, in \<open>PRODUCTS\<close> or in the file, and the cart is as it was.
\<close>

theorem checkout_all_or_nothing:
  assumes "\<exists>l\<in>set (cart s). (case PRODUCTS s (l_barcode l) of None \<Rightarrow> True | Some p \<Rightarrow> l_qty l > stock_qty p)"
  shows "\<exists>m. checkout sid ts write_ok s = ([m], s) \<and> checkout_rejected m"
proof -
  obtain m where "check_stock (PRODUCTS s) (cart s) = Some m" and "checkout_rejected m"
    using check_stock_fails[OF assms] by blast
  then show ?thesis by (simp add: checkout_rejects)
qed

theorem checkout_all_or_nothing_witness:
  "(\<exists>l\<in>set (cart (shop\<lparr>cart := [milk_line 2, bread_line 6]\<rparr>)).
      (case PRODUCTS (shop\<lparr>cart := [milk_line 2, bread_line 6]\<rparr>) (l_barcode l) of
         None \<Rightarrow> True | Some p \<Rightarrow> l_qty l > stock_qty p)) \<and>
   (\<exists>m. checkout ''s1'' noon True (shop\<lparr>cart := [milk_line 2, bread_line 6]\<rparr>)
          = ([m], shop\<lparr>cart := [milk_line 2, bread_line 6]\<rparr>) \<and> checkout_rejected m)"
proof -
  let ?s = "shop\<lparr>cart := [milk_line 2, bread_line 6]\<rparr>"
  have h: "\<exists>l\<in>set (cart ?s). (case PRODUCTS ?s (l_barcode l) of None \<Rightarrow> True | Some p \<Rightarrow> l_qty l > stock_qty p)"
    by (simp add: shop_simps)
  show ?thesis using h checkout_all_or_nothing[OF h] by blast
qed

section \<open>Stock never goes below zero\<close>

lemma add_to_cart_inventory:
  "inventory_df (snd (add_to_cart i b q s)) = inventory_df s \<and>
   PRODUCTS (snd (add_to_cart i b q s)) = PRODUCTS s \<and>
   inventory_file (snd (add_to_cart i b q s)) = inventory_file s \<and>
   sales_file (snd (add_to_cart i b q s)) = sales_file s"
  by (simp add: add_to_cart_def Let_def split: option.splits line_search.splits)

lemma handle_scan_inventory:
  "inventory_df (snd (handle_scan i b q s)) = inventory_df s \<and>
   PRODUCTS (snd (handle_scan i b q s)) = PRODUCTS s \<and>
   inventory_file (snd (handle_scan i b q s)) = inventory_file s \<and>
   sales_file (snd (handle_scan i b q s)) = sales_file s"
  by (simp add: handle_scan_def Let_def add_to_cart_inventory)

lemma remove_one_inventory:
  "inventory_df (remove_one_from_cart i s) = inventory_df s \<and>
   PRODUCTS (remove_one_from_cart i s) = PRODUCTS s \<and>
   inventory_file (remove_one_from_cart i s) = inventory_file s \<and>
   sales_file (remove_one_from_cart i s) = sales_file s"
  by (simp add: remove_one_from_cart_def split: option.splits)

lemma checkout_nonneg:
  assumes "stock_nonneg s"
  shows "stock_nonneg (snd (checkout sid ts write_ok s))"
proof (cases "check_stock (PRODUCTS s) (cart s)")
  case (Some m)
  then show ?thesis using assms by (simp add: checkout_rejects)
next
  case None
  show ?thesis
    using sold_nonneg[OF assms, of sid ts]
    by (simp add: checkout_accepts[OF None] stock_nonneg_def)
qed

lemma step_nonneg: "stock_nonneg s \<Longrightarrow> stock_nonneg (snd (step e s))"
proof (cases e)
  case (Scan i b q)
  assume "stock_nonneg s"
  then show ?thesis using Scan handle_scan_inventory[of i b q s] by (simp add: stock_nonneg_def)
next
  case (SelectProduct i b)
  assume "stock_nonneg s"
  then show ?thesis using SelectProduct add_to_cart_inventory[of i b 1 s] by (simp add: stock_nonneg_def)
next
  case (RemoveOne i)
  assume "stock_nonneg s"
  then show ?thesis using RemoveOne remove_one_inventory[of i s] by (simp add: stock_nonneg_def)
next
  case (Checkout sid ts ok)
  assume "stock_nonneg s"
  then show ?thesis using Checkout by (simp add: checkout_nonneg)
qed (simp_all add: stock_nonneg_def)

lemma run_nonneg: "stock_nonneg s \<Longrightarrow> stock_nonneg (run es s)"
  by (induction es arbitrary: s) (simp_all add: step_nonneg)

text \<open>
  Claim C2. From a state in which no stock quantity is negative, any sequence of user
  actions (checkouts among them) leads to a state in which none is. In a checkout
  that passes the stock check, with one line per barcode, a product that had \<open>k\<close> in
  stock and is on a line has \<open>max (k - qty) 0\<close> afterwards, in the frame and in
  \<open>PRODUCTS\<close>.
\<close>

theorem stock_never_negative:
  "(stock_nonneg s0 \<longrightarrow> stock_nonneg (run es s0)) \<and>
   (check_stock (PRODUCTS s) (cart s) = None \<and> distinct (map l_barcode (cart s)) \<and>
    l \<in> set (cart s) \<and> stock_in (inventory_df s) (l_barcode l) = Some k \<longrightarrow>
      stock_in (inventory_df (snd (checkout sid ts w s))) (l_barcode l) = Some (max (k - l_qty l) 0) \<and>
      map_option stock_qty (PRODUCTS (snd (checkout sid ts w s)) (l_barcode l)) = Some (max (k - l_qty l) 0))"
  using run_nonneg[of s0 es] checkout_line_stock[of s l k sid ts w] by blast

theorem stock_never_negative_witness:
  "stock_nonneg shop \<and>
   stock_nonneg (run [Scan ''u1'' ''1001'' 2, Scan ''u2'' ''1002'' 3, Checkout ''s1'' noon True] shop) \<and>
   check_stock (PRODUCTS (shop\<lparr>cart := [bread_line 2, milk_line 3]\<rparr>))
      (cart (shop\<lparr>cart := [bread_line 2, milk_line 3]\<rparr>)) = None \<and>
   distinct (map l_barcode (cart (shop\<lparr>cart := [bread_line 2, milk_line 3]\<rparr>))) \<and>
   bread_line 2 \<in> set (cart (shop\<lparr>cart := [bread_line 2, milk_line 3]\<rparr>)) \<and>
   stock_in (inventory_df (shop\<lparr>cart := [bread_line 2, milk_line 3]\<rparr>)) ''1001'' = Some 5 \<and>
   stock_in (inventory_df (snd (checkout ''s1'' noon True (shop\<lparr>cart := [bread_line 2, milk_line 3]\<rparr>))))
      ''1001'' = Some 3 \<and>
   map_option stock_qty
     (PRODUCTS (snd (checkout ''s1'' noon True (shop\<lparr>cart := [bread_line 2, milk_line 3]\<rparr>))) ''1001'')
     = Some 3"
proof -
  let ?s = "shop\<lparr>cart := [bread_line 2, milk_line 3]\<rparr>"
  let ?es = "[Scan ''u1'' ''1001'' 2, Scan ''u2'' ''1002'' 3, Checkout ''s1'' noon True]"
  have a: "stock_nonneg shop" by (rule shop_nonneg)
  have b: "check_stock (PRODUCTS ?s) (cart ?s) = None" by (simp add: shop_simps)
  have c: "distinct (map l_barcode (cart ?s))" by (simp add: shop_simps)
  have d: "bread_line 2 \<in> set (cart ?s)" by (simp add: shop_simps)
  have e: "stock_in (inventory_df ?s) (l_barcode (bread_line 2)) = Some 5"
    by (simp add: shop_simps stock_in_def)
  have l: "l_barcode (bread_line 2) = ''1001''" "l_qty (bread_line 2) = 2" by (simp_all add: bread_line_def)
  show ?thesis
    using stock_never_negative[where ?s0.0 = shop and es = ?es and s = ?s and l = "bread_line 2"
        and k = 5 and sid = "''s1''" and ts = noon and w = True] a b c d e
    unfolding l by simp
qed

section \<open>Rounding errors of float arithmetic\<close>

text \<open>
  One rounding to a double costs a relative error of at most \<open>1 / 2 ^ 53\<close> in the normal
  range; the lemmas on \<open>close\<close> carry such errors through products, quotients and sums
  of positive numbers.
\<close>

lemma round_half_even_error: "\<bar>of_int (round_half_even x) - x\<bar> \<le> 1 / 2"
proof -
  have "of_int \<lfloor>x\<rfloor> \<le> x" "x < of_int \<lfloor>x\<rfloor> + 1" by linarith+
  then show ?thesis
    by (auto simp: round_half_even_def Let_def abs_le_iff)
qed

lemma pow2_pos: "0 < pow2 k"
  by (simp add: pow2_def)

lemma pow2_add: "pow2 (a + b) = pow2 a * pow2 b"
proof -
  have "pow2 k = 2 powi k" for k
    by (simp add: pow2_def power_int_def field_simps)
  then show ?thesis by (simp add: power_int_add)
qed

lemma ilog2_lower:
  assumes "0 < x"
  shows "pow2 (ilog2 x) \<le> x"
proof (cases "1 \<le> x")
  case True
  then have p: "0 < \<lfloor>x\<rfloor>" by linarith
  have "(2::int) ^ nat (bitlen \<lfloor>x\<rfloor> - 1) \<le> \<lfloor>x\<rfloor>"
    using bitlen_bounds[OF p] by simp
  then have "of_int ((2::int) ^ nat (bitlen \<lfloor>x\<rfloor> - 1)) \<le> (of_int \<lfloor>x\<rfloor> :: rat)"
    by (simp only: of_int_le_iff)
  then have "(2::rat) ^ nat (bitlen \<lfloor>x\<rfloor> - 1) \<le> of_int \<lfloor>x\<rfloor>" by simp
  also have "\<dots> \<le> x" by linarith
  finally have le: "(2::rat) ^ nat (bitlen \<lfloor>x\<rfloor> - 1) \<le> x" .
  have "1 \<le> bitlen \<lfloor>x\<rfloor>" using p by (simp add: bitlen_alt_def)
  then have "pow2 (bitlen \<lfloor>x\<rfloor> - 1) = 2 ^ nat (bitlen \<lfloor>x\<rfloor> - 1)" by (simp add: pow2_def)
  then show ?thesis using True le by (simp add: ilog2_def)
next
  case False
  define y where "y = 1 / x"
  define n where "n = \<lceil>y\<rceil> - 1"
  have y1: "1 < y" using False assms by (simp add: y_def)
  have n0: "0 < n" using y1 unfolding n_def by linarith
  have "n < 2 ^ nat (bitlen n)" using bitlen_bounds[OF n0] by simp
  then have "\<lceil>y\<rceil> \<le> 2 ^ nat (bitlen n)" unfolding n_def by linarith
  then have "(of_int \<lceil>y\<rceil> :: rat) \<le> of_int (2 ^ nat (bitlen n))" by (simp only: of_int_le_iff)
  then have "(of_int \<lceil>y\<rceil> :: rat) \<le> 2 ^ nat (bitlen n)" by simp
  moreover have "y \<le> of_int \<lceil>y\<rceil>" by linarith
  ultimately have yle: "y \<le> 2 ^ nat (bitlen n)" by linarith
  have bpos: "0 < bitlen n" using n0 by (simp add: bitlen_alt_def)
  have "pow2 (- bitlen n) = 1 / 2 ^ nat (bitlen n)" using bpos by (simp add: pow2_def)
  also have "\<dots> \<le> 1 / y"
    using yle y1 by (simp add: frac_le)
  also have "1 / y = x" by (simp add: y_def)
  finally show ?thesis using False by (simp add: ilog2_def n_def y_def)
qed

lemma fl_zero: "fl 0 = 0"
  by (simp add: fl_def)

lemma fl_error_exp:
  assumes "x \<noteq> 0"
  shows "\<bar>fl x - x\<bar> \<le> pow2 (max (ilog2 \<bar>x\<bar> - 52) (- 1074)) / 2"
proof -
  define e where "e = max (ilog2 \<bar>x\<bar> - 52) (- 1074)"
  have p: "0 < pow2 e" by (rule pow2_pos)
  have "\<bar>of_int (round_half_even (x / pow2 e)) - x / pow2 e\<bar> \<le> 1 / 2"
    by (rule round_half_even_error)
  then have "\<bar>of_int (round_half_even (x / pow2 e)) - x / pow2 e\<bar> * pow2 e \<le> 1 / 2 * pow2 e"
    using p by (simp only: mult_le_cancel_right_pos)
  moreover have "\<bar>of_int (round_half_even (x / pow2 e)) - x / pow2 e\<bar> * pow2 e
      = \<bar>of_int (round_half_even (x / pow2 e)) * pow2 e - x\<bar>"
  proof -
    have "\<bar>of_int (round_half_even (x / pow2 e)) - x / pow2 e\<bar> * pow2 e
        = \<bar>(of_int (round_half_even (x / pow2 e)) - x / pow2 e) * pow2 e\<bar>"
      using p by (simp add: abs_mult)
    also have "(of_int (round_half_even (x / pow2 e)) - x / pow2 e) * pow2 e
        = of_int (round_half_even (x / pow2 e)) * pow2 e - x"
      using p by (simp add: field_simps)
    finally show ?thesis .
  qed
  ultimately have "\<bar>of_int (round_half_even (x / pow2 e)) * pow2 e - x\<bar> \<le> pow2 e / 2" by simp
  then show ?thesis using assms by (simp add: fl_def Let_def e_def)
qed

lemma fl_error: "\<bar>fl x - x\<bar> \<le> max (ulp_half * \<bar>x\<bar>) tiny"
proof (cases "x = 0")
  case True
  then show ?thesis by (simp add: fl_zero tiny_def)
next
  case False
  then have ax: "0 < \<bar>x\<bar>" by simp
  show ?thesis
  proof (cases "ilog2 \<bar>x\<bar> - 52 \<le> - 1074")
    case True
    then have "max (ilog2 \<bar>x\<bar> - 52) (- 1074) = - 1074" by simp
    then have "\<bar>fl x - x\<bar> \<le> pow2 (- 1074) / 2" using fl_error_exp[OF False] by simp
    also have "pow2 (- 1074) / 2 = tiny" by (simp add: pow2_def tiny_def)
    finally show ?thesis by simp
  next
    case False
    then have "max (ilog2 \<bar>x\<bar> - 52) (- 1074) = ilog2 \<bar>x\<bar> - 52" by simp
    then have "\<bar>fl x - x\<bar> \<le> pow2 (ilog2 \<bar>x\<bar> - 52) / 2" using fl_error_exp[OF \<open>x \<noteq> 0\<close>] by simp
    also have "pow2 (ilog2 \<bar>x\<bar> - 52) / 2 = pow2 (ilog2 \<bar>x\<bar>) * ulp_half"
    proof -
      have "pow2 (ilog2 \<bar>x\<bar> - 52) = pow2 (ilog2 \<bar>x\<bar> + (- 52))" by simp
      also have "\<dots> = pow2 (ilog2 \<bar>x\<bar>) * pow2 (- 52)" by (rule pow2_add)
      finally show ?thesis by (simp add: pow2_def ulp_half_def)
    qed
    also have "\<dots> \<le> \<bar>x\<bar> * ulp_half"
      using ilog2_lower[OF ax] by (simp add: ulp_half_def)
    finally show ?thesis by (simp add: mult.commute)
  qed
qed

lemma fl_error_normal:
  assumes "1 / 2 ^ 1022 \<le> \<bar>x\<bar>"
  shows "\<bar>fl x - x\<bar> \<le> ulp_half * \<bar>x\<bar>"
proof -
  have "tiny = ulp_half * (1 / 2 ^ 1022)" by (simp add: tiny_def ulp_half_def)
  also have "\<dots> \<le> ulp_half * \<bar>x\<bar>"
    using assms by (simp add: ulp_half_def)
  finally show ?thesis using fl_error[of x] by simp
qed

lemma ulp_half_pos: "0 < ulp_half" "ulp_half \<le> 1 / 2 ^ 53"
  by (simp_all add: ulp_half_def)

lemma close_refl: "0 \<le> a \<Longrightarrow> close a x x"
  by (simp add: close_def)


lemma close_bounds:
  assumes "close a x y" and "0 \<le> x"
  shows "(1 - a) * x \<le> y" and "y \<le> (1 + a) * x"
  using assms by (simp_all add: close_def abs_le_iff algebra_simps)

lemma close_abs_upper:
  assumes "close a x y"
  shows "\<bar>y\<bar> \<le> (1 + a) * \<bar>x\<bar>"
proof -
  have "\<bar>y\<bar> \<le> \<bar>y - x\<bar> + \<bar>x\<bar>" by simp
  then show ?thesis using assms by (simp add: close_def algebra_simps)
qed

lemma close_abs_lower:
  assumes "close a x y"
  shows "(1 - a) * \<bar>x\<bar> \<le> \<bar>y\<bar>"
proof -
  have "\<bar>x\<bar> \<le> \<bar>y - x\<bar> + \<bar>y\<bar>" by simp
  then show ?thesis using assms by (simp add: close_def algebra_simps)
qed

lemma close_fl:
  assumes c: "close a x y" and n: "1 / 2 ^ 1022 \<le> \<bar>y\<bar>" and a: "0 \<le> a" "a \<le> 1"
  shows "close (a + 2 * ulp_half) x (fl y)"
proof -
  have "\<bar>fl y - x\<bar> \<le> \<bar>fl y - y\<bar> + \<bar>y - x\<bar>" by simp
  also have "\<dots> \<le> ulp_half * \<bar>y\<bar> + a * \<bar>x\<bar>"
    using fl_error_normal[OF n] c by (simp add: close_def)
  also have "ulp_half * \<bar>y\<bar> \<le> ulp_half * ((1 + a) * \<bar>x\<bar>)"
    using close_abs_upper[OF c] ulp_half_pos(1) by (simp only: mult_le_cancel_left_pos)
  also have "(1 + a) * \<bar>x\<bar> \<le> 2 * \<bar>x\<bar>" using a by (simp add: mult_right_mono)
  finally have "\<bar>fl y - x\<bar> \<le> ulp_half * (2 * \<bar>x\<bar>) + a * \<bar>x\<bar>"
    using ulp_half_pos(1) by (simp add: mult_left_mono)
  then show ?thesis by (simp add: close_def algebra_simps)
qed

lemma close_mult:
  assumes "close a x x'" and "close b y y'" and "0 \<le> a" "0 \<le> b"
  shows "close (a + b + a * b) (x * y) (x' * y')"
proof -
  have e: "x' * y' - x * y = x' * (y' - y) + (x' - x) * y" by (simp add: algebra_simps)
  have "\<bar>x' * y' - x * y\<bar> \<le> \<bar>x'\<bar> * \<bar>y' - y\<bar> + \<bar>x' - x\<bar> * \<bar>y\<bar>"
    unfolding e by (metis abs_mult abs_triangle_ineq)
  also have "\<bar>x'\<bar> * \<bar>y' - y\<bar> \<le> ((1 + a) * \<bar>x\<bar>) * (b * \<bar>y\<bar>)"
    using close_abs_upper[OF assms(1)] assms(2) by (intro mult_mono) (simp_all add: close_def assms)
  also have "\<bar>x' - x\<bar> * \<bar>y\<bar> \<le> (a * \<bar>x\<bar>) * \<bar>y\<bar>"
    using assms(1) by (simp add: close_def mult_right_mono)
  finally show ?thesis by (simp add: close_def abs_mult algebra_simps)
qed



section \<open>Line amounts and cart totals in float arithmetic\<close>

lemma amount_bounds:
  assumes "ordinary_line l"
  shows "1 / 10 ^ 6 \<le> amount l" and "amount l \<le> 10 ^ 9"
proof -
  have q: "(1::rat) \<le> of_int (l_qty l)" "(of_int (l_qty l) :: rat) \<le> 1000"
    using assms by (simp_all add: ordinary_line_def)
  have p: "1 / 10 ^ 6 \<le> l_unit_price l" "l_unit_price l \<le> 10 ^ 6"
    using assms by (simp_all add: ordinary_line_def)
  have p0: "0 \<le> l_unit_price l" using p(1) by (rule order_trans[rotated]) simp
  have "1 / 10 ^ 6 \<le> l_unit_price l" by (rule p(1))
  also have "l_unit_price l = l_unit_price l * 1" by simp
  also have "\<dots> \<le> l_unit_price l * of_int (l_qty l)"
    using p0 q(1) by (rule mult_left_mono[rotated])
  finally show "1 / 10 ^ 6 \<le> amount l" unfolding amount_def .
  have "l_unit_price l * of_int (l_qty l) \<le> 10 ^ 6 * 1000"
    using p(2) q(2) q(1) p0 by (intro mult_mono) simp_all
  also have "(10 ^ 6 * 1000 :: rat) = 10 ^ 9" by simp
  finally show "amount l \<le> 10 ^ 9" unfolding amount_def .
qed

lemma line_amount_close:
  assumes "ordinary_line l"
  shows "close (4 * ulp_half) (amount l) (line_amount l)"
proof -
  have q: "(1::rat) \<le> of_int (l_qty l)" using assms by (simp add: ordinary_line_def)
  have c1: "close (2 * ulp_half) (of_int (l_qty l)) (fl (of_int (l_qty l)))"
  proof -
    have "close (0 + 2 * ulp_half) (of_int (l_qty l)) (fl (of_int (l_qty l)))"
    proof (rule close_fl)
      show "close 0 (of_int (l_qty l) :: rat) (of_int (l_qty l))" by (simp add: close_refl)
      have "(1 / 2 ^ 1022 :: rat) \<le> 1" by simp
      also have "\<dots> \<le> \<bar>of_int (l_qty l)\<bar>" using q by simp
      finally show "(1 / 2 ^ 1022 :: rat) \<le> \<bar>of_int (l_qty l)\<bar>" .
    qed simp_all
    then show ?thesis by simp
  qed
  have c2: "close (2 * ulp_half) (amount l) (l_unit_price l * fl (of_int (l_qty l)))"
  proof -
    have "close (0 + 2 * ulp_half + 0 * (2 * ulp_half))
            (l_unit_price l * of_int (l_qty l)) (l_unit_price l * fl (of_int (l_qty l)))"
      by (rule close_mult[OF close_refl c1]) (simp_all add: ulp_half_def)
    then show ?thesis by (simp add: amount_def)
  qed
  have low: "1 / 2 ^ 1022 \<le> \<bar>l_unit_price l * fl (of_int (l_qty l))\<bar>"
  proof -
    have "(1 - 2 * ulp_half) * \<bar>amount l\<bar> \<le> \<bar>l_unit_price l * fl (of_int (l_qty l))\<bar>"
      by (rule close_abs_lower[OF c2])
    moreover have "(1 / 2) * (1 / 10 ^ 6) \<le> (1 - 2 * ulp_half) * \<bar>amount l\<bar>"
      using amount_bounds(1)[OF assms] by (intro mult_mono) (simp_all add: ulp_half_def)
    moreover have "(1 / 2 ^ 1022 :: rat) \<le> (1 / 2) * (1 / 10 ^ 6)" by simp
    ultimately show ?thesis by linarith
  qed
  have "close (2 * ulp_half + 2 * ulp_half) (amount l) (fl (l_unit_price l * fl (of_int (l_qty l))))"
    by (rule close_fl[OF c2 low]) (simp_all add: ulp_half_def)
  then show ?thesis by (simp add: line_amount_def)
qed








lemma line_amount_normal:
  assumes "ordinary_line l"
  shows "1 / (2 * 10 ^ 6) \<le> line_amount l"
proof -
  have x: "1 / 10 ^ 6 \<le> amount l" by (rule amount_bounds(1)[OF assms])
  then have x0: "0 \<le> amount l" by (rule order_trans[rotated]) simp
  have "(1 - 4 * ulp_half) * amount l \<le> line_amount l"
    by (rule close_bounds(1)[OF line_amount_close[OF assms] x0])
  moreover have "(1 / 2) * (1 / 10 ^ 6) \<le> (1 - 4 * ulp_half) * amount l"
    using x by (intro mult_mono) (simp_all add: ulp_half_def)
  ultimately show ?thesis by simp
qed






section \<open>Discounted line totals\<close>













subsection \<open>Three sales at the kiosk\<close>


















section \<open>The inventory file after a checkout\<close>

text \<open>
  Claim C4, evaluated on the code. The shop's file has three rows, one of them
  (candles) inactive. Loading keeps the two active rows in \<open>inventory_df\<close>; a checkout
  of one loaf then writes \<open>inventory_df\<close> back, so the file holds two rows and the
  inactive row is gone.
\<close>

theorem inactive_rows_dropped_by_checkout:
  "load shop_file [] = Inr shop \<and>
   handle_scan ''u1'' ''1001'' 1 shop = ([], shop\<lparr>cart := [bread_line 1]\<rparr>) \<and>
   candles \<in> set (table_rows (inventory_file shop)) \<and>
   fst (checkout ''s1'' noon True (shop\<lparr>cart := [bread_line 1]\<rparr>)) = [SaleSaved []] \<and>
   table_rows (inventory_file (snd (checkout ''s1'' noon True (shop\<lparr>cart := [bread_line 1]\<rparr>))))
     = [bread\<lparr>stock_qty := 4\<rparr>, milk]"
  by (simp add: load_def load_inventory_df_def products_of_def fun_eq_iff
      handle_scan_def strip_def is_space_def add_to_cart_def Let_def shop_simps
      checkout_def update_inventory_after_checkout_def save_sale_def)

section \<open>A failed save of the inventory\<close>

text \<open>
  Claim C7. When the stock check passes and writing the inventory file fails, the
  error is reported, the sale's rows stay appended to the sales log, the frame and
  \<open>PRODUCTS\<close> hold the stock the loop computed (for one line per barcode,
  \<open>max (k - qty) 0\<close> for each product sold), and the file is as it was.
\<close>

theorem failed_inventory_save_keeps_sale:
  assumes "check_stock (PRODUCTS s) (cart s) = None"
  shows "\<exists>s'. checkout sid ts False s = ([FailedToSaveInventory, SaleSaved (member_id s)], s') \<and>
     sales_file s' = sales_file s @ sale_rows sid ts (discount_type s) (discount s) (cart s) (member_id s) \<and>
     inventory_df s' = inventory_df (snd (decrement_stock (cart s) s)) \<and>
     PRODUCTS s' = PRODUCTS (snd (decrement_stock (cart s) s)) \<and>
     (\<forall>l\<in>set (cart s). \<forall>k. distinct (map l_barcode (cart s)) \<longrightarrow>
        stock_in (inventory_df s) (l_barcode l) = Some k \<longrightarrow>
        stock_in (inventory_df s') (l_barcode l) = Some (max (k - l_qty l) 0) \<and>
        map_option stock_qty (PRODUCTS s' (l_barcode l)) = Some (max (k - l_qty l) 0))"
proof -
  let ?s' = "snd (checkout sid ts False s)"
  have "checkout sid ts False s = ([FailedToSaveInventory, SaleSaved (member_id s)], ?s')"
    by (simp add: checkout_accepts[OF assms])
  moreover have "sales_file ?s' = sales_file s @ sale_rows sid ts (discount_type s) (discount s) (cart s) (member_id s)"
    by (rule checkout_ledger[OF assms])
  moreover have "inventory_df ?s' = inventory_df (snd (decrement_stock (cart s) s))"
    "PRODUCTS ?s' = PRODUCTS (snd (decrement_stock (cart s) s))"
    by (simp_all add: checkout_accepts[OF assms] sold_inventory sold_fields)
  moreover have "\<forall>l\<in>set (cart s). \<forall>k. distinct (map l_barcode (cart s)) \<longrightarrow>
        stock_in (inventory_df s) (l_barcode l) = Some k \<longrightarrow>
        stock_in (inventory_df ?s') (l_barcode l) = Some (max (k - l_qty l) 0) \<and>
        map_option stock_qty (PRODUCTS ?s' (l_barcode l)) = Some (max (k - l_qty l) 0)"
    using checkout_line_stock[OF assms] by blast
  ultimately show ?thesis by blast
qed

theorem failed_inventory_save_keeps_sale_witness:
  "check_stock (PRODUCTS (shop\<lparr>cart := [bread_line 2]\<rparr>)) (cart (shop\<lparr>cart := [bread_line 2]\<rparr>)) = None \<and>
   (\<exists>s'. checkout ''s1'' noon False (shop\<lparr>cart := [bread_line 2]\<rparr>)
            = ([FailedToSaveInventory, SaleSaved []], s') \<and>
      length (sales_file s') = 1 \<and>
      stock_in (inventory_df s') ''1001'' = Some 3 \<and>
      map_option stock_qty (PRODUCTS s' ''1001'') = Some 3)"
proof -
  let ?s = "shop\<lparr>cart := [bread_line 2]\<rparr>"
  have a: "check_stock (PRODUCTS ?s) (cart ?s) = None" by (simp add: shop_simps)
  have m: "member_id ?s = []" by (simp add: shop_def)
  obtain s' where c: "checkout ''s1'' noon False ?s = ([FailedToSaveInventory, SaleSaved (member_id ?s)], s')"
    and l: "sales_file s' = sales_file ?s @ sale_rows ''s1'' noon (discount_type ?s) (discount ?s) (cart ?s) (member_id ?s)"
    and d: "\<forall>l\<in>set (cart ?s). \<forall>k. distinct (map l_barcode (cart ?s)) \<longrightarrow>
        stock_in (inventory_df ?s) (l_barcode l) = Some k \<longrightarrow>
        stock_in (inventory_df s') (l_barcode l) = Some (max (k - l_qty l) 0) \<and>
        map_option stock_qty (PRODUCTS s' (l_barcode l)) = Some (max (k - l_qty l) 0)"
    using failed_inventory_save_keeps_sale[OF a, where sid = "''s1''" and ts = noon] by blast
  have "length (sales_file s') = 1" unfolding l by (simp add: shop_def sale_rows_def)
  moreover have "stock_in (inventory_df s') ''1001'' = Some 3 \<and>
      map_option stock_qty (PRODUCTS s' ''1001'') = Some 3"
    using d by (simp add: shop_simps stock_in_def)
  ultimately show ?thesis using a c m by simp
qed

section \<open>The cart invariant\<close>

lemma merge_NoLine: "merge_into_cart b q k c = NoLine \<longleftrightarrow> b \<notin> l_barcode ` set c"
  by (induction c) (auto split: line_search.splits)

lemma merge_Merged:
  "merge_into_cart b q k c = Merged c' \<Longrightarrow>
     map l_barcode c' = map l_barcode c \<and>
     (0 \<le> q \<longrightarrow> (\<forall>l\<in>set c. 1 \<le> l_qty l) \<longrightarrow> (\<forall>l\<in>set c'. 1 \<le> l_qty l))"
proof (induction c arbitrary: c')
  case Nil
  then show ?case by simp
next
  case (Cons x xs)
  show ?case
  proof (cases "l_barcode x = b")
    case True
    then show ?thesis using Cons.prems by (auto split: if_splits)
  next
    case False
    then obtain ys where ys: "merge_into_cart b q k xs = Merged ys" and c': "c' = x # ys"
      using Cons.prems by (auto split: line_search.splits)
    show ?thesis using Cons.IH[OF ys] c' by simp
  qed
qed

lemma merge_Refused_first:
  "distinct (map l_barcode c) \<Longrightarrow> l \<in> set c \<Longrightarrow> l_barcode l = b \<Longrightarrow> l_qty l + q > k \<Longrightarrow>
   merge_into_cart b q k c = Refused l"
proof (induction c)
  case Nil
  then show ?case by simp
next
  case (Cons x xs)
  show ?case
  proof (cases "l = x")
    case True
    then show ?thesis using Cons.prems by simp
  next
    case False
    then have lin: "l \<in> set xs" using Cons.prems(2) by simp
    then have "l_barcode l \<in> l_barcode ` set xs" by (rule imageI)
    then have "l_barcode x \<noteq> b" using Cons.prems(1,3) by auto
    moreover have "merge_into_cart b q k xs = Refused l"
      using Cons.IH lin Cons.prems by simp
    ultimately show ?thesis by simp
  qed
qed

lemma add_to_cart_ok:
  assumes "cart_ok (cart s)" and "1 \<le> q"
  shows "cart_ok (cart (snd (add_to_cart i b q s)))"
proof (cases "PRODUCTS s b")
  case None
  then show ?thesis using assms by (simp add: add_to_cart_def)
next
  case (Some p)
  show ?thesis
  proof (cases "q > stock_qty p")
    case True
    then show ?thesis using assms Some by (simp add: add_to_cart_def)
  next
    case False
    show ?thesis
    proof (cases "merge_into_cart b q (stock_qty p) (cart s)")
      case NoLine
      then have "b \<notin> l_barcode ` set (cart s)" by (simp add: merge_NoLine)
      then show ?thesis using assms Some False NoLine
        by (auto simp: add_to_cart_def cart_ok_def)
    next
      case (Refused l)
      then show ?thesis using assms Some False by (simp add: add_to_cart_def)
    next
      case (Merged c')
      have "cart_ok c'" using merge_Merged[OF Merged] assms by (simp add: cart_ok_def)
      then show ?thesis using Some False Merged by (simp add: add_to_cart_def)
    qed
  qed
qed

lemma handle_scan_ok: "cart_ok (cart s) \<Longrightarrow> cart_ok (cart (snd (handle_scan i t q s)))"
  by (simp add: handle_scan_def Let_def add_to_cart_ok)

lemma decrement_line_ok:
  "find (\<lambda>l. l_id l = i) c = Some l \<Longrightarrow> 1 < l_qty l \<Longrightarrow> cart_ok c \<Longrightarrow> cart_ok (decrement_line i c)"
proof (induction c)
  case Nil
  then show ?case by simp
next
  case (Cons x xs)
  show ?case
  proof (cases "l_id x = i")
    case True
    then show ?thesis using Cons.prems by (auto simp: cart_ok_def)
  next
    case False
    have "map l_barcode (decrement_line i xs) = map l_barcode xs" for xs
      by (induction xs) auto
    moreover have "cart_ok (decrement_line i xs)"
      using Cons.IH Cons.prems False by (auto simp: cart_ok_def)
    ultimately show ?thesis using False Cons.prems(3) by (auto simp: cart_ok_def)
  qed
qed

lemma remove_one_ok: "cart_ok (cart s) \<Longrightarrow> cart_ok (cart (remove_one_from_cart i s))"
proof (cases "find (\<lambda>l. l_id l = i) (cart s)")
  case None
  assume "cart_ok (cart s)"
  then show ?thesis using None by (simp add: remove_one_from_cart_def)
next
  case (Some l)
  assume ok: "cart_ok (cart s)"
  show ?thesis
  proof (cases "1 < l_qty l")
    case True
    then show ?thesis using Some decrement_line_ok[OF Some True ok]
      by (simp add: remove_one_from_cart_def)
  next
    case False
    have "cart_ok (filter (\<lambda>l'. l_id l' \<noteq> i) (cart s))"
      using ok by (auto simp: cart_ok_def distinct_map_filter)
    then show ?thesis using Some False by (simp add: remove_one_from_cart_def)
  qed
qed

lemma checkout_ok: "cart_ok (cart s) \<Longrightarrow> cart_ok (cart (snd (checkout sid ts w s)))"
  by (cases "check_stock (PRODUCTS s) (cart s)")
     (simp_all add: checkout_rejects checkout_accepts cart_ok_def)

lemma step_ok: "cart_ok (cart s) \<Longrightarrow> cart_ok (cart (snd (step e s)))"
  by (cases e) (simp_all add: handle_scan_ok add_to_cart_ok remove_one_ok checkout_ok)

lemma run_ok: "cart_ok (cart s) \<Longrightarrow> cart_ok (cart (run es s))"
  by (induction es arbitrary: s) (simp_all add: step_ok)

text \<open>
  Claim C8. For a barcode that \<open>PRODUCTS\<close> knows, \<open>add_to_cart\<close> answers with one
  insufficient-stock warning and leaves the state as it was when the quantity
  exceeds the stock, and, in a state reached from an empty cart, when a cart line of
  the same barcode has a quantity that together with the new one exceeds it.
  Whenever \<open>add_to_cart\<close> shows a message (an unknown barcode included) the state is
  unchanged, and it never changes the frame, \<open>PRODUCTS\<close> or the inventory file.
\<close>

theorem add_to_cart_insufficient_stock:
  "(PRODUCTS s b = Some p \<and> q > stock_qty p
      \<longrightarrow> (\<exists>m. add_to_cart i b q s = ([m], s) \<and> insufficient_stock m)) \<and>
   (cart s0 = [] \<and> s = run es s0 \<and> PRODUCTS s b = Some p \<and>
    (\<exists>l\<in>set (cart s). l_barcode l = b \<and> l_qty l + q > stock_qty p)
      \<longrightarrow> (\<exists>m. add_to_cart i b q s = ([m], s) \<and> insufficient_stock m)) \<and>
   (fst (add_to_cart i b q s) \<noteq> [] \<longrightarrow> snd (add_to_cart i b q s) = s) \<and>
   inventory_df (snd (add_to_cart i b q s)) = inventory_df s \<and>
   PRODUCTS (snd (add_to_cart i b q s)) = PRODUCTS s \<and>
   inventory_file (snd (add_to_cart i b q s)) = inventory_file s"
proof -
  have a: "\<exists>m. add_to_cart i b q s = ([m], s) \<and> insufficient_stock m"
    if "PRODUCTS s b = Some p" "q > stock_qty p"
    using that by (simp add: add_to_cart_def)
  have b: "\<exists>m. add_to_cart i b q s = ([m], s) \<and> insufficient_stock m"
    if s0: "cart s0 = []" and s: "s = run es s0" and p: "PRODUCTS s b = Some p"
      and h: "\<exists>l\<in>set (cart s). l_barcode l = b \<and> l_qty l + q > stock_qty p"
  proof (cases "q > stock_qty p")
    case True
    then show ?thesis using a p by blast
  next
    case False
    have "cart_ok (cart s0)" using s0 by (simp add: cart_ok_def)
    then have "cart_ok (cart s)" unfolding s by (rule run_ok)
    then have d: "distinct (map l_barcode (cart s))" by (simp add: cart_ok_def)
    obtain l where l: "l \<in> set (cart s)" "l_barcode l = b" "l_qty l + q > stock_qty p"
      using h by auto
    have "merge_into_cart b q (stock_qty p) (cart s) = Refused l"
      using merge_Refused_first[OF d l] .
    then show ?thesis using p False by (simp add: add_to_cart_def)
  qed
  have c: "snd (add_to_cart i b q s) = s" if "fst (add_to_cart i b q s) \<noteq> []"
    using that by (auto simp: add_to_cart_def Let_def split: option.splits line_search.splits if_splits)
  have d: "inventory_df (snd (add_to_cart i b q s)) = inventory_df s"
    "PRODUCTS (snd (add_to_cart i b q s)) = PRODUCTS s"
    "inventory_file (snd (add_to_cart i b q s)) = inventory_file s"
    using add_to_cart_inventory[of i b q s] by simp_all
  show ?thesis using a b c d by blast
qed

theorem add_to_cart_insufficient_stock_witness:
  "PRODUCTS shop ''1001'' = Some bread \<and> 6 > stock_qty bread \<and>
   (\<exists>m. add_to_cart ''u1'' ''1001'' 6 shop = ([m], shop) \<and> insufficient_stock m) \<and>
   cart shop = [] \<and>
   PRODUCTS (run [Scan ''u1'' ''1001'' 4] shop) ''1001'' = Some bread \<and>
   bread_line 4 \<in> set (cart (run [Scan ''u1'' ''1001'' 4] shop)) \<and>
   l_qty (bread_line 4) + 2 > stock_qty bread \<and>
   (\<exists>m. add_to_cart ''u2'' ''1001'' 2 (run [Scan ''u1'' ''1001'' 4] shop)
           = ([m], run [Scan ''u1'' ''1001'' 4] shop) \<and> insufficient_stock m) \<and>
   fst (add_to_cart ''u3'' ''9999'' 1 shop) \<noteq> [] \<and>
   snd (add_to_cart ''u3'' ''9999'' 1 shop) = shop"
proof -
  let ?s = "run [Scan ''u1'' ''1001'' 4] shop"
  have a: "cart shop = []" by (simp add: shop_def)
  have s: "?s = shop\<lparr>cart := [bread_line 4]\<rparr>"
    by (simp add: handle_scan_def strip_def is_space_def add_to_cart_def Let_def shop_simps)
  have p0: "PRODUCTS shop ''1001'' = Some bread" by (simp add: shop_def)
  have q0: "6 > stock_qty bread" by (simp add: bread_def)
  have p: "PRODUCTS ?s ''1001'' = Some bread" unfolding s by (simp add: shop_def)
  have l: "bread_line 4 \<in> set (cart ?s)" unfolding s by simp
  have q: "l_qty (bread_line 4) + 2 > stock_qty bread" by (simp add: shop_simps)
  have lb: "l_barcode (bread_line 4) = ''1001''" by (simp add: bread_line_def)
  have ex: "\<exists>l\<in>set (cart ?s). l_barcode l = ''1001'' \<and> l_qty l + 2 > stock_qty bread"
    using l q lb by blast
  have n: "fst (add_to_cart ''u3'' ''9999'' 1 shop) \<noteq> []"
    by (simp add: add_to_cart_def shop_def)
  have r1: "\<exists>m. add_to_cart ''u1'' ''1001'' 6 shop = ([m], shop) \<and> insufficient_stock m"
    using add_to_cart_insufficient_stock[where s = shop and b = "''1001''" and p = bread
        and q = 6 and i = "''u1''"] p0 q0 by blast
  have r2: "\<exists>m. add_to_cart ''u2'' ''1001'' 2 ?s = ([m], ?s) \<and> insufficient_stock m"
    using add_to_cart_insufficient_stock[where s = ?s and ?s0.0 = shop
        and es = "[Scan ''u1'' ''1001'' 4]" and b = "''1001''" and p = bread
        and q = 2 and i = "''u2''"] a p ex by blast
  have r3: "snd (add_to_cart ''u3'' ''9999'' 1 shop) = shop"
    using add_to_cart_insufficient_stock[where s = shop and b = "''9999''"
        and q = 1 and i = "''u3''"] n by blast
  show ?thesis by (intro conjI p0 q0 r1 a p l q r2 n r3)
qed

lemma add_to_cart_merges:
  assumes "b \<in> l_barcode ` set (cart s)"
  shows "map l_barcode (cart (snd (add_to_cart i b q s))) = map l_barcode (cart s)"
proof (cases "PRODUCTS s b")
  case None
  then show ?thesis by (simp add: add_to_cart_def)
next
  case (Some p)
  show ?thesis
  proof (cases "merge_into_cart b q (stock_qty p) (cart s)")
    case NoLine
    then show ?thesis using assms by (simp add: merge_NoLine)
  next
    case (Refused l)
    then show ?thesis using Some by (simp add: add_to_cart_def Let_def)
  next
    case (Merged c')
    then show ?thesis using Some merge_Merged[OF Merged] by (simp add: add_to_cart_def Let_def)
  qed
qed

lemma remove_one_deletes:
  assumes "find (\<lambda>l. l_id l = j) (cart s) = Some l" and "l_qty l \<le> 1"
  shows "j \<notin> l_id ` set (cart (remove_one_from_cart j s))"
  using assms by (auto simp: remove_one_from_cart_def)

text \<open>
  Claim C9. Starting from an empty cart, after any sequence of user actions every
  cart line has a quantity of at least 1 and no two lines have the same barcode.
  Adds reach \<open>add_to_cart\<close> through \<open>handle_scan\<close>, which refuses a quantity
  below 1, or through the product search, which adds 1. An add for a barcode already
  in the cart leaves the cart's barcodes as they are (it merges or refuses), and
  removing one from a line with quantity 1 deletes the line.
\<close>

theorem cart_lines_positive_and_distinct:
  "(cart s0 = [] \<longrightarrow>
      (\<forall>l\<in>set (cart (run es s0)). 1 \<le> l_qty l) \<and> distinct (map l_barcode (cart (run es s0)))) \<and>
   (b \<in> l_barcode ` set (cart s) \<longrightarrow>
      map l_barcode (cart (snd (add_to_cart i b q s))) = map l_barcode (cart s)) \<and>
   (find (\<lambda>l. l_id l = j) (cart s) = Some l \<and> l_qty l \<le> 1 \<longrightarrow>
      j \<notin> l_id ` set (cart (remove_one_from_cart j s)))"
proof -
  have "cart_ok (cart (run es s0))" if "cart s0 = []"
  proof -
    have "cart_ok (cart s0)" using that by (simp add: cart_ok_def)
    then show ?thesis by (rule run_ok)
  qed
  then show ?thesis
    using add_to_cart_merges[of b s i q] remove_one_deletes[of j s l]
    by (simp add: cart_ok_def)
qed

theorem cart_lines_positive_and_distinct_witness:
  "cart shop = [] \<and>
   cart (run [Scan ''u1'' ''1001'' 2, SelectProduct ''u2'' ''1001'', Scan ''u3'' ''1002'' 1,
              RemoveOne ''u3''] shop) = [bread_line 3] \<and>
   list_all (\<lambda>l. 1 \<le> l_qty l)
     (cart (run [Scan ''u1'' ''1001'' 2, SelectProduct ''u2'' ''1001'', Scan ''u3'' ''1002'' 1,
                 RemoveOne ''u3''] shop)) \<and>
   distinct (map l_barcode
     (cart (run [Scan ''u1'' ''1001'' 2, SelectProduct ''u2'' ''1001'', Scan ''u3'' ''1002'' 1,
                 RemoveOne ''u3''] shop))) \<and>
   ''1001'' \<in> l_barcode ` set (cart (shop\<lparr>cart := [bread_line 2]\<rparr>)) \<and>
   map l_barcode (cart (snd (add_to_cart ''u2'' ''1001'' 1 (shop\<lparr>cart := [bread_line 2]\<rparr>)))) = [''1001''] \<and>
   find (\<lambda>l. l_id l = ''u2'') (cart (shop\<lparr>cart := [bread_line 3, milk_line 1]\<rparr>)) = Some (milk_line 1) \<and>
   l_qty (milk_line 1) \<le> 1 \<and>
   ''u2'' \<notin> l_id ` set (cart (remove_one_from_cart ''u2'' (shop\<lparr>cart := [bread_line 3, milk_line 1]\<rparr>)))"
proof -
  let ?es = "[Scan ''u1'' ''1001'' 2, SelectProduct ''u2'' ''1001'', Scan ''u3'' ''1002'' 1, RemoveOne ''u3'']"
  let ?s = "shop\<lparr>cart := [bread_line 2]\<rparr>"
  let ?t = "shop\<lparr>cart := [bread_line 3, milk_line 1]\<rparr>"
  note t = cart_lines_positive_and_distinct[where ?s0.0 = shop and es = ?es]
  have a: "cart shop = []" by (simp add: shop_def)
  have b: "cart (run ?es shop) = [bread_line 3]"
    by (simp add: handle_scan_def strip_def is_space_def add_to_cart_def Let_def shop_simps
        remove_one_from_cart_def)
  have c: "list_all (\<lambda>l. 1 \<le> l_qty l) (cart (run ?es shop))"
    and d: "distinct (map l_barcode (cart (run ?es shop)))"
    using t a by (simp_all only: list_all_iff) blast+
  have e: "''1001'' \<in> l_barcode ` set (cart ?s)" by (simp add: bread_line_def)
  have f: "map l_barcode (cart (snd (add_to_cart ''u2'' ''1001'' 1 ?s))) = [''1001'']"
    using cart_lines_positive_and_distinct[where s = ?s and b = "''1001''" and i = "''u2''" and q = 1] e
    by (simp add: bread_line_def)
  have g: "find (\<lambda>l. l_id l = ''u2'') (cart ?t) = Some (milk_line 1)"
    by (simp add: bread_line_def milk_line_def)
  have h: "l_qty (milk_line 1) \<le> 1" by (simp add: milk_line_def)
  have k: "''u2'' \<notin> l_id ` set (cart (remove_one_from_cart ''u2'' ?t))"
    using cart_lines_positive_and_distinct[where s = ?t and j = "''u2''" and l = "milk_line 1"] g h
    by blast
  show ?thesis by (intro conjI a b c d e f g h k)
qed

section \<open>Checkout of an empty cart\<close>

text \<open>
  Claim C10. With an empty cart \<open>checkout\<close> succeeds: the sales log is unchanged, the
  frame and \<open>PRODUCTS\<close> are unchanged, the file is written with the frame as it is,
  the member id is cleared and the discount set to 0. When the write fails the error
  is reported as well and the file is left alone.
\<close>

theorem checkout_of_empty_cart:
  assumes "cart s = []"
  shows "checkout sid ts True s =
           ([SaleSaved (member_id s)],
            s\<lparr>member_id := [], discount := 0,
              inventory_file := \<lparr>has_reorder_level = True, table_rows = inventory_df s\<rparr>\<rparr>) \<and>
         checkout sid ts False s =
           ([FailedToSaveInventory, SaleSaved (member_id s)], s\<lparr>member_id := [], discount := 0\<rparr>)"
  using assms
  by (simp add: checkout_def update_inventory_after_checkout_def save_sale_def sale_rows_def)

theorem checkout_of_empty_cart_witness:
  "cart (shop\<lparr>member_id := ''M7'', discount := 10\<rparr>) = [] \<and>
   checkout ''s1'' noon True (shop\<lparr>member_id := ''M7'', discount := 10\<rparr>) =
     ([SaleSaved ''M7''],
      shop\<lparr>inventory_file := \<lparr>has_reorder_level = True, table_rows = [bread, milk]\<rparr>\<rparr>)"
proof -
  let ?s = "shop\<lparr>member_id := ''M7'', discount := 10\<rparr>"
  have a: "cart ?s = []" by (simp add: shop_def)
  show ?thesis using checkout_of_empty_cart[OF a, where sid = "''s1''" and ts = noon] a
    by (simp add: shop_def)
qed

section \<open>Grouping\<close>

lemma map_of_insert_group:
  "map_of (insert_group k v gs) k' =
     (if k' = k then Some ((case map_of gs k of None \<Rightarrow> [] | Some vs \<Rightarrow> vs) @ [v])
      else map_of gs k')"
  by (induction gs) auto

lemma keys_insert_group:
  "map fst (insert_group k v gs) = (if k \<in> fst ` set gs then map fst gs else map fst gs @ [k])"
  by (induction gs) force+

lemma distinct_insert_group:
  "distinct (map fst gs) \<Longrightarrow> distinct (map fst (insert_group k v gs))"
  by (simp add: keys_insert_group)

lemma foldl_insert_group:
  "map_of (foldl (\<lambda>gs (k, v). insert_group k v gs) gs kvs) k =
     (if values_of k kvs = [] then map_of gs k
      else Some ((case map_of gs k of None \<Rightarrow> [] | Some vs \<Rightarrow> vs) @ values_of k kvs))"
proof (induction kvs arbitrary: gs)
  case Nil
  then show ?case by (simp add: values_of_def)
next
  case (Cons kv kvs)
  obtain k0 v0 where kv: "kv = (k0, v0)" by (cases kv)
  show ?case
    unfolding kv using Cons.IH[of "insert_group k0 v0 gs"]
    by (auto simp: values_of_def map_of_insert_group split: option.splits)
qed

lemma foldl_insert_group_distinct:
  "distinct (map fst gs) \<Longrightarrow> distinct (map fst (foldl (\<lambda>gs (k, v). insert_group k v gs) gs kvs))"
proof (induction kvs arbitrary: gs)
  case Nil
  then show ?case by simp
next
  case (Cons kv kvs)
  obtain k0 v0 where kv: "kv = (k0, v0)" by (cases kv)
  show ?case unfolding kv using Cons.IH[of "insert_group k0 v0 gs"] Cons.prems
    by (simp add: distinct_insert_group)
qed

lemma map_of_groupby:
  "map_of (groupby kvs) k = (if values_of k kvs = [] then None else Some (values_of k kvs))"
  by (simp add: groupby_def foldl_insert_group)

lemma distinct_groupby: "distinct (map fst (groupby kvs))"
  by (simp add: groupby_def foldl_insert_group_distinct)

lemma groupby_values_nonempty: "(k, vs) \<in> set (groupby kvs) \<Longrightarrow> vs = values_of k kvs \<and> vs \<noteq> []"
proof -
  assume "(k, vs) \<in> set (groupby kvs)"
  then have "map_of (groupby kvs) k = Some vs"
    using distinct_groupby[of kvs] by (simp add: map_of_is_SomeI del: map_of_eq_Some_iff)
  then show ?thesis by (auto simp: map_of_groupby split: if_splits)
qed

lemma keys_groupby: "fst ` set (groupby kvs) = fst ` set kvs"
proof -
  have "k \<in> fst ` set (groupby kvs) \<longleftrightarrow> k \<in> fst ` set kvs" for k
  proof -
    have "k \<in> fst ` set (groupby kvs) \<longleftrightarrow> map_of (groupby kvs) k \<noteq> None"
      by (simp add: map_of_eq_None_iff)
    also have "\<dots> \<longleftrightarrow> values_of k kvs \<noteq> []" by (simp add: map_of_groupby)
    also have "\<dots> \<longleftrightarrow> k \<in> fst ` set kvs"
      by (auto simp: values_of_def filter_empty_conv image_iff)
    finally show ?thesis .
  qed
  then show ?thesis by blast
qed

section \<open>The monthly mean the script computes\<close>

lemma monthly_qty_alt:
  "monthly_qty frame = map (\<lambda>(k, vs). (k, sum_list vs)) (groupby (map key_qty frame))"
  by (simp add: monthly_qty_def key_qty_def[abs_def])

lemma values_of_key_qty:
  "sum_list (values_of (b, m) (map key_qty frame)) = qty_in_month frame b m"
  by (induction frame) (auto simp: values_of_def qty_in_month_def key_qty_def)

lemma monthly_qty_keys_distinct: "distinct (map fst (monthly_qty frame))"
proof -
  have "map fst (monthly_qty frame) = map fst (groupby (map key_qty frame))"
    by (simp add: monthly_qty_alt case_prod_beta comp_def)
  then show ?thesis by (simp add: distinct_groupby)
qed

lemma monthly_qty_entry:
  assumes "(k, t) \<in> set (monthly_qty frame)"
  shows "t = qty_in_month frame (fst k) (snd k)"
proof -
  obtain vs where "(k, vs) \<in> set (groupby (map key_qty frame))" and t: "t = sum_list vs"
    using assms by (auto simp: monthly_qty_alt)
  then have "vs = values_of k (map key_qty frame)" by (simp add: groupby_values_nonempty)
  then show ?thesis using t values_of_key_qty[of "fst k" "snd k" frame] by simp
qed

lemma monthly_qty_keys:
  "fst ` set (monthly_qty frame) = (\<lambda>r. (r_barcode (m_sale r), month_of (sale_ts (m_sale r)))) ` set frame"
proof -
  have "fst ` set (monthly_qty frame) = fst ` set (groupby (map key_qty frame))"
    by (force simp: monthly_qty_alt)
  also have "\<dots> = fst ` set (map key_qty frame)" by (rule keys_groupby)
  also have "\<dots> = (\<lambda>r. (r_barcode (m_sale r), month_of (sale_ts (m_sale r)))) ` set frame"
    by (force simp: key_qty_def)
  finally show ?thesis .
qed

lemma month_keys_distinct: "distinct (month_keys frame b)"
  by (simp add: month_keys_def monthly_qty_keys_distinct)

lemma month_keys_set: "set (month_keys frame b) = Pair b ` months_sold frame b"
proof -
  have "set (month_keys frame b) = {k \<in> fst ` set (monthly_qty frame). fst k = b}"
    by (auto simp: month_keys_def)
  also have "\<dots> = Pair b ` months_sold frame b"
    unfolding monthly_qty_keys by (auto simp: months_sold_def image_iff)
  finally show ?thesis .
qed

lemma values_by_key:
  "\<forall>(k, t)\<in>set M. t = g k \<Longrightarrow>
   values_of b (map (\<lambda>((b, m), t). (b, t)) M) = map g (filter (\<lambda>k. fst k = b) (map fst M))"
  by (induction M) (auto simp: values_of_def)

lemma product_month_totals:
  "values_of b (map (\<lambda>((b, m), total). (b, total)) (monthly_qty frame))
     = map (\<lambda>k. qty_in_month frame (fst k) (snd k)) (month_keys frame b)"
  unfolding month_keys_def
  by (rule values_by_key) (auto dest: monthly_qty_entry)

lemma product_month_totals_sum:
  "sum_list (values_of b (map (\<lambda>((b, m), total). (b, total)) (monthly_qty frame)))
     = (\<Sum>m\<in>months_sold frame b. qty_in_month frame b m)"
proof -
  have "sum_list (map (\<lambda>k. qty_in_month frame (fst k) (snd k)) (month_keys frame b))
      = (\<Sum>k\<in>set (month_keys frame b). qty_in_month frame (fst k) (snd k))"
    by (rule sum_list_distinct_conv_sum_set[OF month_keys_distinct])
  also have "\<dots> = (\<Sum>k\<in>Pair b ` months_sold frame b. qty_in_month frame (fst k) (snd k))"
    by (simp add: month_keys_set)
  also have "\<dots> = (\<Sum>m\<in>months_sold frame b. qty_in_month frame b m)"
    by (subst sum.reindex) (auto simp: inj_on_def)
  finally show ?thesis by (simp add: product_month_totals)
qed

lemma product_month_totals_length:
  "length (values_of b (map (\<lambda>((b, m), total). (b, total)) (monthly_qty frame)))
     = card (months_sold frame b)"
proof -
  have "length (month_keys frame b) = card (set (month_keys frame b))"
    by (simp add: distinct_card[OF month_keys_distinct])
  also have "\<dots> = card (months_sold frame b)"
    unfolding month_keys_set by (rule card_image) (auto simp: inj_on_def)
  finally show ?thesis by (simp add: product_month_totals)
qed

lemma months_sold_finite: "finite (months_sold frame b)"
  by (simp add: months_sold_def)

lemma monthly_sales_per_product_mean:
  "map_of (monthly_sales_per_product frame) b = mean_monthly_qty frame b"
proof -
  let ?L = "map (\<lambda>((b, m), total). (b, total)) (monthly_qty frame)"
  have "map_of (monthly_sales_per_product frame) b
      = map_option (\<lambda>totals. of_int (sum_list totals) / of_nat (length totals)) (map_of (groupby ?L) b)"
    by (simp add: monthly_sales_per_product_def map_of_map)
  also have "\<dots> = (if values_of b ?L = [] then None
      else Some (of_int (sum_list (values_of b ?L)) / of_nat (length (values_of b ?L))))"
    by (simp add: map_of_groupby)
  also have "\<dots> = mean_monthly_qty frame b"
  proof -
    have "values_of b ?L = [] \<longleftrightarrow> months_sold frame b = {}"
      using product_month_totals_length[of b frame] months_sold_finite[of frame b]
      by (metis card_0_eq length_0_conv)
    then show ?thesis
      by (simp add: mean_monthly_qty_def product_month_totals_sum product_month_totals_length)
  qed
  finally show ?thesis .
qed

lemma reorder_levels_dynamic:
  "map_of (reorder_levels frame) b = map_option (\<lambda>x. max \<lceil>x * 2\<rceil> 5) (mean_monthly_qty frame b)"
  by (simp add: reorder_levels_def map_of_map monthly_sales_per_product_mean)

lemma inventory_with_reorder_effective:
  "inventory_with_reorder frame inventory
     = map (\<lambda>p. p\<lparr>reorder_level := Some (effective_reorder_level frame p)\<rparr>) inventory"
  by (auto simp: inventory_with_reorder_def effective_reorder_level_def reorder_levels_dynamic
        split: option.splits)

lemma low_stock_df_effective:
  "low_stock_df frame inventory
     = map (\<lambda>p. p\<lparr>reorder_level := Some (effective_reorder_level frame p)\<rparr>)
         (filter (\<lambda>p. stock_qty p \<le> effective_reorder_level frame p) inventory)"
  by (simp add: low_stock_df_def inventory_with_reorder_effective filter_map comp_def)

lemma avg_monthly_sales_mean:
  "avg_monthly_sales frame p = (case mean_monthly_qty frame (barcode p) of None \<Rightarrow> 0 | Some x \<Rightarrow> x)"
  by (simp add: avg_monthly_sales_def monthly_sales_per_product_mean)

section \<open>The ledger of the example\<close>

lemmas ledger_simps = ledger_def milk_sale_def all_dates_def february_def since_december_def

lemma ledger_merged:
  "sales_merged ledger (table_rows shop_file) = map (\<lambda>r. \<lparr>m_sale = r, m_inv = Some milk\<rparr>) ledger"
  by (simp add: sales_merged_def ledger_simps shop_simps)

lemma ledger_all_dates:
  "sales_filtered all_dates (sales_merged ledger (table_rows shop_file))
     = sales_merged ledger (table_rows shop_file)"
  unfolding ledger_merged
  by (simp add: sales_filtered_def passes_def isin_def date_of_def ledger_simps shop_simps)

lemma ledger_since_december:
  "sales_filtered since_december (sales_merged ledger (table_rows shop_file))
     = sales_merged ledger (table_rows shop_file)"
  unfolding ledger_merged
  by (simp add: sales_filtered_def passes_def isin_def date_of_def ledger_simps shop_simps)

lemma ledger_february:
  "sales_filtered february (sales_merged ledger (table_rows shop_file))
     = [\<lparr>m_sale = milk_sale 2024 2 18 2, m_inv = Some milk\<rparr>]"
  unfolding ledger_merged
  by (simp add: sales_filtered_def passes_def isin_def date_of_def ledger_simps shop_simps)

lemma ledger_monthly_all:
  "monthly_sales_per_product (sales_merged ledger (table_rows shop_file)) = [(''1002'', 5)]"
  unfolding ledger_merged
  by (simp add: monthly_sales_per_product_def monthly_qty_def groupby_def month_of_def ledger_simps)

lemma ledger_monthly_february:
  "monthly_sales_per_product [\<lparr>m_sale = milk_sale 2024 2 18 2, m_inv = Some milk\<rparr>] = [(''1002'', 2)]"
  by (simp add: monthly_sales_per_product_def monthly_qty_def groupby_def month_of_def ledger_simps)

lemma ledger_levels_all:
  "reorder_levels (sales_merged ledger (table_rows shop_file)) = [(''1002'', 10)]"
  by (simp add: reorder_levels_def ledger_monthly_all)

lemma ledger_levels_february:
  "reorder_levels [\<lparr>m_sale = milk_sale 2024 2 18 2, m_inv = Some milk\<rparr>] = [(''1002'', 5)]"
  by (simp add: reorder_levels_def ledger_monthly_february)

lemma dashboard_all_dates:
  "dashboard all_dates ledger (table_rows shop_file) =
     \<lparr>with_reorder = [bread, candles, milk\<lparr>reorder_level := Some 10\<rparr>],
      low_stock = [(milk\<lparr>reorder_level := Some 10\<rparr>, 5, 0)]\<rparr>"
  unfolding dashboard_def ledger_all_dates reorder_analysis_def inventory_with_reorder_def
    low_stock_df_def avg_monthly_sales_def reorder_qty_def ledger_levels_all ledger_monthly_all
  by (simp add: shop_simps astype_int_def)

lemma dashboard_february:
  "dashboard february ledger (table_rows shop_file) =
     \<lparr>with_reorder = [bread, candles, milk\<lparr>reorder_level := Some 5\<rparr>], low_stock = []\<rparr>"
  unfolding dashboard_def ledger_february reorder_analysis_def inventory_with_reorder_def
    low_stock_df_def avg_monthly_sales_def reorder_qty_def ledger_levels_february
    ledger_monthly_february
  by (simp add: shop_simps astype_int_def)

section \<open>The reorder analysis and the sidebar filters\<close>

text \<open>
  Claim C5 as stated fails: the analysis groups \<open>sales_filtered\<close>, not the whole
  ledger. Over one ledger and one inventory, the default date range gives milk the
  level 10 and flags it; a range of February alone gives it the level 5 and flags
  nothing.
\<close>

theorem reorder_levels_change_with_filters:
  "map reorder_level (with_reorder (dashboard all_dates ledger (table_rows shop_file)))
     = [Some 4, Some 2, Some 10] \<and>
   map reorder_level (with_reorder (dashboard february ledger (table_rows shop_file)))
     = [Some 4, Some 2, Some 5] \<and>
   map (\<lambda>(p, avg, q). barcode p) (low_stock (dashboard all_dates ledger (table_rows shop_file)))
     = [''1002''] \<and>
   low_stock (dashboard february ledger (table_rows shop_file)) = []"
  unfolding dashboard_all_dates dashboard_february
  by (simp add: bread_def candles_def milk_def)

text \<open>
  Claim C5, amended. The report is the analysis of the joined ledger rows that pass
  the date, category and brand filters, with the whole inventory: the average
  monthly sales of a barcode are the mean over the passing rows; two settings that
  let the same rows pass give the same report; and a setting that lets every row
  pass gives the report of the whole joined ledger.
\<close>

theorem reorder_analysis_follows_filters:
  "(sales_filtered f1 (sales_merged sales_df inventory) = sales_filtered f2 (sales_merged sales_df inventory)
      \<longrightarrow> dashboard f1 sales_df inventory = dashboard f2 sales_df inventory) \<and>
   ((\<forall>r\<in>set (sales_merged sales_df inventory). passes f r)
      \<longrightarrow> dashboard f sales_df inventory = reorder_analysis (sales_merged sales_df inventory) inventory) \<and>
   map_of (monthly_sales_per_product (sales_filtered f (sales_merged sales_df inventory))) b
     = mean_monthly_qty (filter (passes f) (sales_merged sales_df inventory)) b \<and>
   dashboard f sales_df inventory
     = reorder_analysis (filter (passes f) (sales_merged sales_df inventory)) inventory"
  by (simp add: dashboard_def sales_filtered_def monthly_sales_per_product_mean)

theorem reorder_analysis_follows_filters_witness:
  "sales_filtered all_dates (sales_merged ledger (table_rows shop_file))
     = sales_filtered since_december (sales_merged ledger (table_rows shop_file)) \<and>
   all_dates \<noteq> since_december \<and>
   dashboard all_dates ledger (table_rows shop_file) = dashboard since_december ledger (table_rows shop_file) \<and>
   list_all (passes all_dates) (sales_merged ledger (table_rows shop_file)) \<and>
   dashboard all_dates ledger (table_rows shop_file)
     = reorder_analysis (sales_merged ledger (table_rows shop_file)) (table_rows shop_file)"
proof -
  have a: "sales_filtered all_dates (sales_merged ledger (table_rows shop_file))
     = sales_filtered since_december (sales_merged ledger (table_rows shop_file))"
    by (simp add: ledger_all_dates ledger_since_december)
  have b: "\<forall>r\<in>set (sales_merged ledger (table_rows shop_file)). passes all_dates r"
    using ledger_all_dates by (simp add: sales_filtered_def filter_id_conv)
  have c: "all_dates \<noteq> since_december" by (simp add: ledger_simps)
  note t = reorder_analysis_follows_filters[where ?f1.0 = all_dates and ?f2.0 = since_december
        and f = all_dates and sales_df = ledger and inventory = "table_rows shop_file"]
  have d1: "dashboard all_dates ledger (table_rows shop_file)
          = dashboard since_december ledger (table_rows shop_file)"
    using t a by blast
  have d2: "dashboard all_dates ledger (table_rows shop_file)
     = reorder_analysis (sales_merged ledger (table_rows shop_file)) (table_rows shop_file)"
    using t b by blast
  have b': "list_all (passes all_dates) (sales_merged ledger (table_rows shop_file))"
    using b by (simp only: list_all_iff)
  from a c d1 b' d2 show ?thesis by blast
qed

section \<open>The reorder formulas\<close>

text \<open>
  Claim C6. On the frame it groups, the script's dynamic level of a barcode is
  \<open>max (ceiling (2 * avg)) 5\<close>, with \<open>avg\<close> the mean of the barcode's monthly
  quantity sums over the months it appears in; each inventory row gets as level its
  own if it has one, else the dynamic one, else 5; the low-stock rows are those with
  \<open>stock_qty \<le> level\<close>; and each comes with the average (0 without sales) and the
  reorder quantity \<open>max (2 * avg - stock_qty) 0\<close> cut to an integer.
\<close>

theorem reorder_analyzer_formulas:
  "map_of (reorder_levels frame) b = map_option (\<lambda>x. max \<lceil>x * 2\<rceil> 5) (mean_monthly_qty frame b) \<and>
   with_reorder (reorder_analysis frame inventory)
     = map (\<lambda>p. p\<lparr>reorder_level := Some (effective_reorder_level frame p)\<rparr>) inventory \<and>
   low_stock (reorder_analysis frame inventory)
     = map (\<lambda>p. (p\<lparr>reorder_level := Some (effective_reorder_level frame p)\<rparr>,
                  (case mean_monthly_qty frame (barcode p) of None \<Rightarrow> 0 | Some x \<Rightarrow> x),
                  \<lfloor>max (2 * (case mean_monthly_qty frame (barcode p) of None \<Rightarrow> 0 | Some x \<Rightarrow> x)
                         - of_int (stock_qty p)) 0\<rfloor>))
         (filter (\<lambda>p. stock_qty p \<le> effective_reorder_level frame p) inventory)"
  by (simp add: reorder_levels_dynamic reorder_analysis_def inventory_with_reorder_effective
      low_stock_df_effective reorder_qty_def astype_int_def avg_monthly_sales_mean)

theorem reorder_analyzer_formulas_witness:
  "mean_monthly_qty (sales_merged ledger (table_rows shop_file)) ''1002'' = Some 5 \<and>
   map_of (reorder_levels (sales_merged ledger (table_rows shop_file))) ''1002'' = Some 10 \<and>
   effective_reorder_level (sales_merged ledger (table_rows shop_file)) milk = 10 \<and>
   low_stock (reorder_analysis (sales_merged ledger (table_rows shop_file)) (table_rows shop_file))
     = [(milk\<lparr>reorder_level := Some 10\<rparr>, 5, 0)]"
proof -
  define frame where "frame = sales_merged ledger (table_rows shop_file)"
  have mo: "monthly_sales_per_product frame = [(''1002'', 5)]"
    unfolding frame_def by (rule ledger_monthly_all)
  have m: "mean_monthly_qty frame ''1002'' = Some 5"
    using monthly_sales_per_product_mean[of frame "''1002''"] by (simp add: mo)
  have e: "effective_reorder_level frame milk = 10"
    by (simp add: effective_reorder_level_def m milk_def)
  have e1: "effective_reorder_level frame bread = 4" "effective_reorder_level frame candles = 2"
    by (simp_all add: effective_reorder_level_def bread_def candles_def)
  have st: "stock_qty bread = 5" "stock_qty candles = 3" "stock_qty milk = 10" "barcode milk = ''1002''"
    by (simp_all add: bread_def candles_def milk_def)
  note t = reorder_analyzer_formulas[of frame "''1002''" "table_rows shop_file"]
  have r: "map_of (reorder_levels frame) ''1002'' = Some 10"
    using t by (simp add: m)
  have "low_stock (reorder_analysis frame (table_rows shop_file))
      = [(milk\<lparr>reorder_level := Some 10\<rparr>, 5, 0)]"
    using t by (simp add: shop_file_def e e1 st m)
  then show ?thesis using m r e unfolding frame_def by simp
qed

end
